theory Spec2Isabelle
  imports Main
begin

section \<open>Python values used by the driver\<close>

text \<open>
  Exceptions that the modelled code can raise. Every function that can raise returns
  a sum, \<open>Inl\<close> carrying the exception. \<open>SocketTimeout\<close> is \<^verbatim>\<open>socket.timeout\<close>,
  raised by \<^verbatim>\<open>recv\<close> on a socket with a timeout when nothing arrives in time.
\<close>

datatype exn = IndexError | UnicodeEncodeError | SocketTimeout | ValueError

type_synonym 'a result = "exn + 'a"

text \<open>A \<^verbatim>\<open>bytes\<close> object is a list of 8-bit characters; so is an ASCII \<^verbatim>\<open>str\<close>.\<close>

type_synonym bytes = "char list"

definition is_ascii :: "char list \<Rightarrow> bool" where
  "is_ascii cs = list_all (\<lambda>c. (of_char c :: nat) < 128) cs"

text \<open>\<^verbatim>\<open>request.encode("ascii")\<close>: raises on a character outside ASCII.\<close>

definition encode :: "string \<Rightarrow> bytes result" where
  "encode s = (if is_ascii s then Inr s else Inl UnicodeEncodeError)"

text \<open>
  \<^verbatim>\<open>response.decode("ascii")\<close>; the only caller catches \<^verbatim>\<open>UnicodeDecodeError\<close> at once,
  so the failure is \<open>None\<close>.
\<close>

definition decode :: "bytes \<Rightarrow> string option" where
  "decode bs = (if is_ascii bs then Some bs else None)"

text \<open>\<^verbatim>\<open>s.split(c)\<close> for a separator of one character: never returns the empty list.\<close>

fun str_split :: "char \<Rightarrow> string \<Rightarrow> string list" where
  "str_split c [] = [[]]"
| "str_split c (x # xs) =
     (if x = c then [] # str_split c xs
      else (case str_split c xs of
              [] \<Rightarrow> [[x]]
            | y # ys \<Rightarrow> (x # y) # ys))"

text \<open>\<^verbatim>\<open>s.strip(chars)\<close>: drops leading and trailing characters that occur in \<open>chars\<close>.\<close>

definition str_strip :: "string \<Rightarrow> string \<Rightarrow> string" where
  "str_strip chars s =
     rev (dropWhile (\<lambda>c. c \<in> set chars) (rev (dropWhile (\<lambda>c. c \<in> set chars) s)))"

text \<open>\<^verbatim>\<open>s.replace(old, new)\<close> for a pattern \<open>old\<close> of one character.\<close>

definition str_replace :: "char \<Rightarrow> string \<Rightarrow> string \<Rightarrow> string" where
  "str_replace old new s = concat (map (\<lambda>c. if c = old then new else [c]) s)"

text \<open>\<^verbatim>\<open>x or None\<close> for a string \<open>x\<close>: the empty string is falsy.\<close>

definition or_None :: "string \<Rightarrow> string option" where
  "or_None s = (if s = [] then None else Some s)"

section \<open>comms.py\<close>

definition CR :: char where "CR = CHR 0x0D"
definition ACK :: char where "ACK = CHR 0x06"
definition NACK :: char where "NACK = CHR 0x21"

datatype level = DEBUG | INFO | WARNING | ERROR

text \<open>
  The calls made on the logger of \<^verbatim>\<open>Comms\<close>, in order, each with its level. The text of
  a message is kept as a constructor and its interpolated argument. The log holds the
  calls, before any filtering by the logger's level.
\<close>

datatype comms_msg =
    SendingRequest string
  | SentBytes nat
  | FailedToParse bytes
  | ReceivedNACK
  | ReceivedResponse string
  | MultipleMessages string

text \<open>
  What one call of \<^verbatim>\<open>socket.recv\<close> does: it returns a chunk of bytes, or raises
  \<^verbatim>\<open>socket.timeout\<close>.
\<close>

datatype recv_result = Data bytes | Timeout

text \<open>
  The state of a \<^verbatim>\<open>Comms\<close> object and of its connection: the byte strings handed to
  \<^verbatim>\<open>socket.send\<close> so far, the outcomes of the coming \<^verbatim>\<open>recv\<close> calls (when none is
  left, nothing arrives any more and \<^verbatim>\<open>recv\<close> times out), and the logger calls.
  The lock is not part of the state: the model runs one caller at a time.
\<close>

record Comms =
  sent :: "bytes list"
  incoming :: "recv_result list"
  comms_log :: "(level \<times> comms_msg) list"

definition log_comms :: "level \<Rightarrow> comms_msg \<Rightarrow> Comms \<Rightarrow> Comms" where
  "log_comms l m c = c\<lparr>comms_log := comms_log c @ [(l, m)]\<rparr>"

text \<open>\<^verbatim>\<open>Comms._format_message\<close> on a \<^verbatim>\<open>str\<close>.\<close>

definition priv_format_message :: "string \<Rightarrow> string" where
  "priv_format_message message = str_replace CR ''<CR>'' (str_replace ACK ''<ACK>'' message)"

text \<open>
  \<^verbatim>\<open>Comms._send\<close>. The request is encoded before \<^verbatim>\<open>socket.send\<close> is called, so an
  encoding error leaves the wire untouched. \<^verbatim>\<open>send\<close> is taken to accept the whole
  frame.
\<close>

definition priv_send :: "string \<Rightarrow> Comms \<Rightarrow> unit result \<times> Comms" where
  "priv_send request c =
     (let request = request @ [CR];
          c1 = log_comms DEBUG (SendingRequest (priv_format_message request)) c
      in case encode request of
           Inl e \<Rightarrow> (Inl e, c1)
         | Inr bs \<Rightarrow>
             (let c2 = c1\<lparr>sent := sent c1 @ [bs]\<rparr>
              in (Inr (), log_comms DEBUG (SentBytes (length bs)) c2)))"

text \<open>\<^verbatim>\<open>self._socket.recv(RECV_BUFFER)\<close>.\<close>

definition recv :: "Comms \<Rightarrow> bytes result \<times> Comms" where
  "recv c =
     (case incoming c of
        [] \<Rightarrow> (Inl SocketTimeout, c)
      | Timeout # rest \<Rightarrow> (Inl SocketTimeout, c\<lparr>incoming := rest\<rparr>)
      | Data bs # rest \<Rightarrow> (Inr bs, c\<lparr>incoming := rest\<rparr>))"

text \<open>
  \<^verbatim>\<open>Comms._send_receive\<close>. \<^verbatim>\<open>decoded_response[0]\<close> raises \<^verbatim>\<open>IndexError\<close> on the
  empty string.
\<close>

definition priv_send_receive :: "string \<Rightarrow> Comms \<Rightarrow> string option result \<times> Comms" where
  "priv_send_receive request c =
     (case priv_send request c of
        (Inl e, c1) \<Rightarrow> (Inl e, c1)
      | (Inr _, c1) \<Rightarrow>
          (case recv c1 of
             (Inl e, c2) \<Rightarrow> (Inl e, c2)
           | (Inr response, c2) \<Rightarrow>
               (case decode response of
                  None \<Rightarrow> (Inr None, log_comms ERROR (FailedToParse response) c2)
                | Some decoded_response \<Rightarrow>
                    (case decoded_response of
                       [] \<Rightarrow> (Inl IndexError, c2)
                     | x # _ \<Rightarrow>
                         if x = NACK then (Inr None, log_comms ERROR ReceivedNACK c2)
                         else (Inr (Some decoded_response),
                               log_comms DEBUG
                                 (ReceivedResponse (priv_format_message decoded_response)) c2)))))"

text \<open>
  \<^verbatim>\<open>Comms.send_receive\<close>. \<^verbatim>\<open>messages[-1]\<close> raises \<^verbatim>\<open>IndexError\<close> when the reply holds
  no carriage return, and \<^verbatim>\<open>decoded_response[0]\<close> raises it when the last segment is
  empty.
\<close>

definition send_receive :: "string \<Rightarrow> Comms \<Rightarrow> (bool \<times> string option) result \<times> Comms" where
  "send_receive request c =
     (case priv_send_receive request c of
        (Inl e, c1) \<Rightarrow> (Inl e, c1)
      | (Inr None, c1) \<Rightarrow> (Inr (False, None), c1)
      | (Inr (Some decoded_response), c1) \<Rightarrow>
          (let messages = butlast (str_split CR decoded_response);
               c2 = (if length messages > 1
                     then log_comms WARNING
                            (MultipleMessages (priv_format_message decoded_response)) c1
                     else c1)
           in if messages = [] then (Inl IndexError, c2)
              else (case last messages of
                      [] \<Rightarrow> (Inl IndexError, c2)
                    | x # xs \<Rightarrow>
                        if x = ACK
                        then (Inr (True, or_None (str_strip [CR] (str_strip [ACK] (x # xs)))), c2)
                        else (Inr (False, None), c2))))"

section \<open>microlab.py\<close>

definition INSTRUMENT_DONE :: string where "INSTRUMENT_DONE = ''F''"

text \<open>
  A \<^verbatim>\<open>Command\<close> as the controller uses it: the object's attribute \<^verbatim>\<open>string\<close>, the
  rendered frame body. The class itself lives in \<^verbatim>\<open>hamiltonmicrolab.commands.command\<close>,
  outside the files at hand; the controller reads nothing else of it.
\<close>

datatype Command = Command (string: string)

text \<open>
  A \<^verbatim>\<open>threading.Thread\<close> with target \<^verbatim>\<open>_cycle_commands\<close>: its arguments and whether
  \<^verbatim>\<open>start\<close> has been called on it.
\<close>

datatype thread = Thread (thread_commands: "Command list") (thread_address: string)
  (started: bool)

text \<open>The calls made on the logger of \<^verbatim>\<open>Microlab\<close>.\<close>

datatype microlab_msg =
    HaltSuccessful
  | HaltFailed
  | CycleAlreadyRunning

text \<open>
  The state of a \<^verbatim>\<open>Microlab\<close> object. \<open>comms_level\<close> is the level set on the logger
  of \<^verbatim>\<open>Comms\<close>. \<open>stop_in\<close> is not a field of the object: it stands for the thread that
  calls \<^verbatim>\<open>stop_cycle\<close>, whose write of \<^verbatim>\<open>_stop_requested = True\<close> lands just before the
  read of the flag that follows \<open>k\<close> more reads, for \<open>stop_in = Some k\<close>, and never for
  \<open>None\<close>.
\<close>

record Microlab =
  comms :: Comms
  initialised :: bool
  stop_requested :: bool
  threads :: "thread list"
  microlab_log :: "(level \<times> microlab_msg) list"
  comms_level :: level
  stop_in :: "nat option"

definition log_microlab :: "level \<Rightarrow> microlab_msg \<Rightarrow> Microlab \<Rightarrow> Microlab" where
  "log_microlab l msg m = m\<lparr>microlab_log := microlab_log m @ [(l, msg)]\<rparr>"

text \<open>One read of \<^verbatim>\<open>self._stop_requested\<close> by the cycling thread.\<close>

definition read_stop :: "Microlab \<Rightarrow> bool \<times> Microlab" where
  "read_stop m =
     (case stop_in m of
        None \<Rightarrow> (stop_requested m, m)
      | Some 0 \<Rightarrow> (True, m\<lparr>stop_requested := True, stop_in := None\<rparr>)
      | Some (Suc k) \<Rightarrow> (stop_requested m, m\<lparr>stop_in := Some k\<rparr>))"

text \<open>\<^verbatim>\<open>Microlab.send_command\<close>: the value of \<^verbatim>\<open>send_receive\<close> is dropped, the method
  returns \<^verbatim>\<open>None\<close>.\<close>

definition send_command :: "Command \<Rightarrow> string \<Rightarrow> Microlab \<Rightarrow> unit result \<times> Microlab" where
  "send_command command address m =
     (case send_receive (address @ string command) (comms m) of
        (Inl e, c) \<Rightarrow> (Inl e, m\<lparr>comms := c\<rparr>)
      | (Inr _, c) \<Rightarrow> (Inr (), m\<lparr>comms := c\<rparr>))"

text \<open>\<^verbatim>\<open>Microlab.halt_execution\<close>.\<close>

definition halt_execution :: "string \<Rightarrow> Microlab \<Rightarrow> unit result \<times> Microlab" where
  "halt_execution address m =
     (case send_receive (address @ ''K'') (comms m) of
        (Inl e, c) \<Rightarrow> (Inl e, m\<lparr>comms := c\<rparr>)
      | (Inr (success, _), c) \<Rightarrow>
          if success then (Inr (), log_microlab DEBUG HaltSuccessful (m\<lparr>comms := c\<rparr>))
          else (Inr (), log_microlab ERROR HaltFailed (m\<lparr>comms := c\<rparr>)))"

text \<open>\<^verbatim>\<open>Microlab._reset_cycle\<close>.\<close>

definition priv_reset_cycle :: "string \<Rightarrow> Microlab \<Rightarrow> unit result \<times> Microlab" where
  "priv_reset_cycle address m =
     (case halt_execution address m of
        (Inl e, m1) \<Rightarrow> (Inl e, m1)
      | (Inr _, m1) \<Rightarrow> (Inr (), m1\<lparr>stop_requested := False, threads := []\<rparr>))"

text \<open>
  The inner loop of \<^verbatim>\<open>_cycle_commands\<close>, which polls the device with the query
  \<open>F\<close> until the payload is \<^verbatim>\<open>Y_INFO_RESPONSE\<close>. That constant is defined in a module
  that is not at hand, so it is the parameter \<open>Y\<close>. The loop leaves in two ways: the
  condition becomes false (\<open>Done\<close>), or the stop flag is seen, the cycle is reset and
  \<^verbatim>\<open>_cycle_commands\<close> returns (\<open>Stopped\<close>). The first argument after \<open>Y\<close> bounds the
  number of polls; \<open>None\<close> means that the bound was reached. \<^verbatim>\<open>sleep\<close> has no effect
  on the state.
\<close>

datatype poll_exit = Done | Stopped

fun poll_until_done ::
  "string \<Rightarrow> nat \<Rightarrow> string \<Rightarrow> Microlab \<Rightarrow> (poll_exit result \<times> Microlab) option" where
  "poll_until_done Y 0 address m = None"
| "poll_until_done Y (Suc n) address m =
     (case send_receive (address @ INSTRUMENT_DONE) (comms m) of
        (Inl e, c) \<Rightarrow> Some (Inl e, m\<lparr>comms := c\<rparr>)
      | (Inr r, c) \<Rightarrow>
          if snd r \<noteq> Some Y
          then (case read_stop (m\<lparr>comms := c\<rparr>) of
                  (True, m2) \<Rightarrow>
                    (case priv_reset_cycle address m2 of
                       (Inl e, m3) \<Rightarrow> Some (Inl e, m3)
                     | (Inr _, m3) \<Rightarrow> Some (Inr Stopped, m3))
                | (False, m2) \<Rightarrow> poll_until_done Y n address m2)
          else Some (Inr Done, m\<lparr>comms := c\<rparr>))"

text \<open>The \<^verbatim>\<open>for command in commands\<close> loop of \<^verbatim>\<open>_cycle_commands\<close>.\<close>

fun for_commands ::
  "string \<Rightarrow> nat \<Rightarrow> Command list \<Rightarrow> string \<Rightarrow> Microlab \<Rightarrow> (poll_exit result \<times> Microlab) option"
  where
  "for_commands Y n [] address m = Some (Inr Done, m)"
| "for_commands Y n (command # rest) address m =
     (case send_command command address m of
        (Inl e, m1) \<Rightarrow> Some (Inl e, m1)
      | (Inr _, m1) \<Rightarrow>
          (case poll_until_done Y n address m1 of
             None \<Rightarrow> None
           | Some (Inl e, m2) \<Rightarrow> Some (Inl e, m2)
           | Some (Inr Stopped, m2) \<Rightarrow> Some (Inr Stopped, m2)
           | Some (Inr Done, m2) \<Rightarrow> for_commands Y n rest address m2))"

text \<open>
  The \<^verbatim>\<open>while not self._stop_requested\<close> loop of \<^verbatim>\<open>_cycle_commands\<close> with the reset
  behind it; the bound counts the passes over the list.
\<close>

fun cycle_loop ::
  "string \<Rightarrow> nat \<Rightarrow> Command list \<Rightarrow> string \<Rightarrow> Microlab \<Rightarrow> (unit result \<times> Microlab) option"
  where
  "cycle_loop Y 0 commands address m = None"
| "cycle_loop Y (Suc n) commands address m =
     (case read_stop m of
        (True, m1) \<Rightarrow> Some (priv_reset_cycle address m1)
      | (False, m1) \<Rightarrow>
          (case for_commands Y n commands address m1 of
             None \<Rightarrow> None
           | Some (Inl e, m2) \<Rightarrow> Some (Inl e, m2)
           | Some (Inr Stopped, m2) \<Rightarrow> Some (Inr (), m2)
           | Some (Inr Done, m2) \<Rightarrow> cycle_loop Y n commands address m2))"

text \<open>\<^verbatim>\<open>Microlab._cycle_commands\<close>, the body of the background thread.\<close>

definition priv_cycle_commands ::
  "string \<Rightarrow> nat \<Rightarrow> Command list \<Rightarrow> string \<Rightarrow> Microlab \<Rightarrow> (unit result \<times> Microlab) option"
  where
  "priv_cycle_commands Y n commands address m =
     cycle_loop Y n commands address (m\<lparr>comms_level := ERROR\<rparr>)"

text \<open>
  \<^verbatim>\<open>Microlab.cycle_commands\<close>. Creating and starting the thread is recorded in
  \<open>threads\<close>; what the thread then does is \<open>priv_cycle_commands\<close>.
\<close>

definition cycle_commands :: "Command list \<Rightarrow> string \<Rightarrow> Microlab \<Rightarrow> Microlab" where
  "cycle_commands commands address m =
     (if threads m \<noteq> [] then log_microlab ERROR CycleAlreadyRunning m
      else (let m1 = m\<lparr>threads := threads m @ [Thread commands address False]\<rparr>
            in m1\<lparr>threads := (threads m1)[0 := Thread (thread_commands (threads m1 ! 0))
                                               (thread_address (threads m1 ! 0)) True]\<rparr>))"

section \<open>Syringe sub-commands\<close>

text \<open>
  Modelled from the spec: the sides and the three kinds of syringe move. The module
  \<^verbatim>\<open>hamiltonmicrolab.commands.syringe_move\<close> is not among the sources; its tests and
  its callers (\<^verbatim>\<open>ipython.py\<close>, \<^verbatim>\<open>wrapper.py\<close>) are, and every definition of this
  section but the last follows the specification and those tests.
\<close>

datatype Side = LEFT | RIGHT

datatype move_kind = Pickup | Dispense | AbsoluteMove

text \<open>
  Modelled from the spec: a number handed to an optional field (speed, return steps),
  an integer or a non-integer such as \<^verbatim>\<open>50.0\<close>.
\<close>

datatype number = Integer int | NonInteger

text \<open>
  Modelled from the spec: the accepted ranges. The module's constants
  \<^verbatim>\<open>MIN_SYRINGE_MOVE\<close>, \<^verbatim>\<open>MAX_SYRINGE_MOVE\<close> and \<^verbatim>\<open>MIN_SPEED\<close> are imported by the
  callers but their values are not at hand, and the specification names no number, so
  the bounds are parameters.
\<close>

record limits =
  MIN_SYRINGE_MOVE :: int
  MAX_SYRINGE_MOVE :: int
  MIN_SPEED :: int
  MAX_SPEED :: int
  MIN_RETURN_STEPS :: int
  MAX_RETURN_STEPS :: int

text \<open>Modelled from the spec: the fields of a constructed syringe sub-command.\<close>

record SyringeMove =
  move_kind :: move_kind
  move_side :: Side
  move_value :: int
  move_speed :: "int option"
  move_return_steps :: "int option"

text \<open>
  Modelled from the spec: the debug messages of the constructors, each with the name of
  the field it is about.
\<close>

datatype syringe_msg = OutsideRange string | IgnoringNonInteger string

text \<open>
  Modelled from the spec: the check of one optional field. An absent argument is
  accepted, a non-integer one is ignored with a debug notice, an integer outside the
  range raises. The specification calls the exception \<open>ValidationError\<close>; the tests
  expect Python's \<^verbatim>\<open>ValueError\<close> and a debug message that says
  \<^verbatim>\<open>outside acceptable range\<close>.
\<close>

definition optional_field ::
  "int \<Rightarrow> int \<Rightarrow> string \<Rightarrow> number option \<Rightarrow> int option result \<times> (level \<times> syringe_msg) list"
  where
  "optional_field lo hi name arg =
     (case arg of
        None \<Rightarrow> (Inr None, [])
      | Some NonInteger \<Rightarrow> (Inr None, [(DEBUG, IgnoringNonInteger name)])
      | Some (Integer v) \<Rightarrow>
          if v < lo \<or> hi < v then (Inl ValueError, [(DEBUG, OutsideRange name)])
          else (Inr (Some v), []))"

text \<open>Modelled from the spec: the name of a move in the message about its step value.\<close>

definition kind_name :: "move_kind \<Rightarrow> string" where
  "kind_name k = (case k of Pickup \<Rightarrow> ''syringe pickup'' | Dispense \<Rightarrow> ''syringe dispense''
                  | AbsoluteMove \<Rightarrow> ''syringe absolute move'')"

text \<open>
  Modelled from the spec: the construction of a syringe sub-command, which validates
  the step value, then the speed, then the return steps, and fails at the first field
  outside its range. It takes no link: construction cannot perform a transaction.
\<close>

definition syringe_move ::
  "limits \<Rightarrow> move_kind \<Rightarrow> Side \<Rightarrow> int \<Rightarrow> number option \<Rightarrow> number option \<Rightarrow>
     SyringeMove result \<times> (level \<times> syringe_msg) list" where
  "syringe_move lim kind side value speed return_steps =
     (if value < MIN_SYRINGE_MOVE lim \<or> MAX_SYRINGE_MOVE lim < value
      then (Inl ValueError, [(DEBUG, OutsideRange (kind_name kind))])
      else (case optional_field (MIN_SPEED lim) (MAX_SPEED lim) ''speed'' speed of
              (Inl e, l1) \<Rightarrow> (Inl e, l1)
            | (Inr s, l1) \<Rightarrow>
                (case optional_field (MIN_RETURN_STEPS lim) (MAX_RETURN_STEPS lim)
                        ''return steps'' return_steps of
                   (Inl e, l2) \<Rightarrow> (Inl e, l1 @ l2)
                 | (Inr r, l2) \<Rightarrow>
                     (Inr \<lparr>move_kind = kind, move_side = side, move_value = value,
                            move_speed = s, move_return_steps = r\<rparr>, l1 @ l2))))"

text \<open>Modelled from the spec: the three constructors the callers use.\<close>

definition SyringePickup ::
  "limits \<Rightarrow> Side \<Rightarrow> int \<Rightarrow> number option \<Rightarrow> number option \<Rightarrow>
     SyringeMove result \<times> (level \<times> syringe_msg) list" where
  "SyringePickup lim = syringe_move lim Pickup"

definition SyringeDispense ::
  "limits \<Rightarrow> Side \<Rightarrow> int \<Rightarrow> number option \<Rightarrow> number option \<Rightarrow>
     SyringeMove result \<times> (level \<times> syringe_msg) list" where
  "SyringeDispense lim = syringe_move lim Dispense"

definition SyringeAbsoluteMove ::
  "limits \<Rightarrow> Side \<Rightarrow> int \<Rightarrow> number option \<Rightarrow> number option \<Rightarrow>
     SyringeMove result \<times> (level \<times> syringe_msg) list" where
  "SyringeAbsoluteMove lim = syringe_move lim AbsoluteMove"

text \<open>
  A caller that constructs a value and then passes it on, as \<^verbatim>\<open>move_syringe\<close> of
  \<^verbatim>\<open>ipython.py\<close> does with \<^verbatim>\<open>SyringeAbsoluteMove\<close> and \<^verbatim>\<open>send_command\<close>: when the
  construction raises, what follows is not run.
\<close>

definition then_run ::
  "'a result \<Rightarrow> ('a \<Rightarrow> Microlab \<Rightarrow> 'b result \<times> Microlab) \<Rightarrow> Microlab \<Rightarrow> 'b result \<times> Microlab"
  where
  "then_run r k m = (case r of Inl e \<Rightarrow> (Inl e, m) | Inr x \<Rightarrow> k x m)"

section \<open>Auxiliary definitions for the proofs\<close>

text \<open>
  The state of the connection after \<open>priv_send\<close> has sent an ASCII request: two debug
  calls on the logger and one more frame on the wire.
\<close>

definition after_send :: "string \<Rightarrow> Comms \<Rightarrow> Comms" where
  "after_send request c =
     log_comms DEBUG (SentBytes (Suc (length request)))
       ((log_comms DEBUG (SendingRequest (priv_format_message (request @ [CR]))) c)
          \<lparr>sent := sent c @ [request @ [CR]]\<rparr>)"

text \<open>
  The last part of \<open>send_receive\<close>, from the split of the decoded reply on: what it
  returns for a reply that \<open>priv_send_receive\<close> has handed over.
\<close>

definition classify :: "string \<Rightarrow> (bool \<times> string option) result" where
  "classify reply =
     (let messages = butlast (str_split CR reply)
      in if messages = [] then Inl IndexError
         else (case last messages of
                 [] \<Rightarrow> Inl IndexError
               | x # xs \<Rightarrow>
                   if x = ACK
                   then Inr (True, or_None (str_strip [CR] (str_strip [ACK] (x # xs))))
                   else Inr (False, None)))"

section \<open>One transaction on the link\<close>

lemma is_ascii_snoc_CR: "is_ascii (s @ [CR]) = is_ascii s"
  by (simp add: is_ascii_def CR_def)

lemma priv_send_ascii:
  "is_ascii request \<Longrightarrow> priv_send request c = (Inr (), after_send request c)"
  by (simp add: priv_send_def encode_def is_ascii_snoc_CR after_send_def Let_def log_comms_def)

lemma incoming_after_send: "incoming (after_send request c) = incoming c"
  by (simp add: after_send_def log_comms_def)

lemma recv_data:
  "incoming c = Data reply # rest \<Longrightarrow> recv c = (Inr reply, c\<lparr>incoming := rest\<rparr>)"
  by (simp add: recv_def)

lemma priv_send_receive_data:
  assumes "is_ascii request" and "incoming c = Data reply # rest"
  shows "priv_send_receive request c =
     (let c2 = (after_send request c)\<lparr>incoming := rest\<rparr> in
      if \<not> is_ascii reply then (Inr None, log_comms ERROR (FailedToParse reply) c2)
      else if reply = [] then (Inl IndexError, c2)
      else if hd reply = NACK then (Inr None, log_comms ERROR ReceivedNACK c2)
      else (Inr (Some reply),
            log_comms DEBUG (ReceivedResponse (priv_format_message reply)) c2))"
  using assms
  by (simp add: priv_send_receive_def priv_send_ascii recv_data incoming_after_send
      decode_def Let_def split: list.splits)

lemma send_receive_fst_data:
  assumes "is_ascii request" and "incoming c = Data reply # rest"
  shows "fst (send_receive request c) =
     (if \<not> is_ascii reply then Inr (False, None)
      else if reply = [] then Inl IndexError
      else if hd reply = NACK then Inr (False, None)
      else classify reply)"
  using assms
  by (simp add: send_receive_def priv_send_receive_data classify_def Let_def split: list.splits)

text \<open>
  C3 (as amended). Given the reply bytes ACK, \<open>@\<close>, CR, \<open>send_receive\<close> reports success
  and the payload is the one-character string \<open>@\<close>: the character after the
  acknowledge byte is returned to the caller, it is not dropped.
\<close>

theorem send_receive_ack_at_payload:
  "is_ascii request \<Longrightarrow> incoming c = Data [ACK, CHR ''@'', CR] # rest \<Longrightarrow>
   fst (send_receive request c) = Inr (True, Some ''@'')"
  by (simp add: send_receive_fst_data classify_def is_ascii_def ACK_def CR_def NACK_def
     str_strip_def or_None_def)

theorem send_receive_ack_at_payload_witness:
  "is_ascii ''aU'' \<and>
   incoming \<lparr>sent = [], incoming = [Data [ACK, CHR ''@'', CR]], comms_log = []\<rparr>
     = Data [ACK, CHR ''@'', CR] # [] \<and>
   fst (send_receive ''aU'' \<lparr>sent = [], incoming = [Data [ACK, CHR ''@'', CR]], comms_log = []\<rparr>)
     = Inr (True, Some ''@'')"
  using send_receive_ack_at_payload
    [of "''aU''" "\<lparr>sent = [], incoming = [Data [ACK, CHR ''@'', CR]], comms_log = []\<rparr>" "[]"]
  by (simp add: is_ascii_def)

text \<open>
  C3 as the specification words it fails: on the reply ACK, \<open>@\<close>, CR the payload is neither
  absent nor the empty string.
\<close>

theorem send_receive_ack_at_not_empty:
  "fst (send_receive ''aU'' \<lparr>sent = [], incoming = [Data [ACK, CHR ''@'', CR]], comms_log = []\<rparr>)
     \<noteq> Inr (True, None) \<and>
   fst (send_receive ''aU'' \<lparr>sent = [], incoming = [Data [ACK, CHR ''@'', CR]], comms_log = []\<rparr>)
     \<noteq> Inr (True, Some [])"
  by (simp add: send_receive_fst_data classify_def is_ascii_def ACK_def CR_def NACK_def
     str_strip_def or_None_def)

lemma strip_only_ACK: "set seg \<subseteq> {ACK} \<Longrightarrow> str_strip [ACK] seg = []"
proof -
  assume a: "set seg \<subseteq> {ACK}"
  have "\<forall>x\<in>set seg. x \<in> set [ACK]" using a by auto
  then have d: "dropWhile (\<lambda>c. c \<in> set [ACK]) seg = []"
    by (simp only: dropWhile_eq_Nil_conv)
  show ?thesis unfolding str_strip_def d by (simp only: rev.simps dropWhile.simps)
qed

lemma classify_only_ACK:
  assumes "butlast (str_split CR reply) \<noteq> []"
    and "last (butlast (str_split CR reply)) \<noteq> []"
    and "set (last (butlast (str_split CR reply))) \<subseteq> {ACK}"
  shows "classify reply = Inr (True, None)"
proof -
  define seg where segdef: "seg = last (butlast (str_split CR reply))"
  have ne: "seg \<noteq> []" unfolding segdef by (rule assms(2))
  obtain x xs where seg: "seg = x # xs" using ne by (cases seg) auto
  have sub: "set seg \<subseteq> {ACK}" unfolding segdef by (rule assms(3))
  then have s: "str_strip [ACK] seg = []" by (rule strip_only_ACK)
  have x: "x = ACK" using sub seg by simp
  have "str_strip [CR] [] = []" by (simp add: str_strip_def)
  then have o: "or_None (str_strip [CR] (str_strip [ACK] seg)) = None"
    by (simp add: s or_None_def)
  have "classify reply = (case seg of [] \<Rightarrow> Inl IndexError
               | x # xs \<Rightarrow>
                   if x = ACK
                   then Inr (True, or_None (str_strip [CR] (str_strip [ACK] (x # xs))))
                   else Inr (False, None))"
    unfolding classify_def Let_def segdef using assms(1) by simp
  also have "\<dots> = Inr (True, or_None (str_strip [CR] (str_strip [ACK] seg)))"
    by (simp add: seg x)
  finally show ?thesis by (simp only: o)
qed

lemma split_ACK_CR: "butlast (str_split CR [ACK, CR]) = [[ACK]]"
  by (simp add: ACK_def CR_def)

text \<open>
  C10. When the acknowledged final segment carries no payload character, the payload
  returned is \<open>None\<close>: for the reply ACK, CR, and for every reply whose final segment
  holds acknowledge characters only. No call ever returns the empty string as payload.
\<close>

theorem send_receive_empty_payload_is_none:
  "(is_ascii request \<and> incoming c = Data [ACK, CR] # rest \<longrightarrow>
      fst (send_receive request c) = Inr (True, None)) \<and>
   (is_ascii request \<and> incoming c = Data reply # rest \<and> is_ascii reply \<and> reply \<noteq> [] \<and>
    hd reply \<noteq> NACK \<and> butlast (str_split CR reply) \<noteq> [] \<and>
    last (butlast (str_split CR reply)) \<noteq> [] \<and>
    set (last (butlast (str_split CR reply))) \<subseteq> {ACK} \<longrightarrow>
      fst (send_receive request c) = Inr (True, None)) \<and>
   fst (send_receive request c) \<noteq> Inr (ok, Some [])"
proof (intro conjI impI)
  assume a: "is_ascii request \<and> incoming c = Data [ACK, CR] # rest"
  have "classify [ACK, CR] = Inr (True, None)"
    by (rule classify_only_ACK) (simp_all only: split_ACK_CR, simp_all)
  moreover have "is_ascii [ACK, CR]" "hd [ACK, CR] \<noteq> NACK"
    by (simp_all add: is_ascii_def ACK_def CR_def NACK_def)
  ultimately show "fst (send_receive request c) = Inr (True, None)"
    using a by (simp add: send_receive_fst_data)
next
  assume a: "is_ascii request \<and> incoming c = Data reply # rest \<and> is_ascii reply \<and> reply \<noteq> [] \<and>
    hd reply \<noteq> NACK \<and> butlast (str_split CR reply) \<noteq> [] \<and>
    last (butlast (str_split CR reply)) \<noteq> [] \<and>
    set (last (butlast (str_split CR reply))) \<subseteq> {ACK}"
  then have "classify reply = Inr (True, None)"
    by (intro classify_only_ACK) simp_all
  then show "fst (send_receive request c) = Inr (True, None)"
    using a by (simp add: send_receive_fst_data)
next
  show "fst (send_receive request c) \<noteq> Inr (ok, Some [])"
    by (auto simp: send_receive_def or_None_def Let_def
        split: prod.splits sum.splits option.splits list.splits if_splits)
qed

theorem send_receive_empty_payload_is_none_witness:
  "is_ascii ''aXR'' \<and>
   incoming \<lparr>sent = [], incoming = [Data [ACK, CR]], comms_log = []\<rparr> = Data [ACK, CR] # [] \<and>
   is_ascii [ACK, CR] \<and> [ACK, CR] \<noteq> [] \<and> hd [ACK, CR] \<noteq> NACK \<and>
   butlast (str_split CR [ACK, CR]) \<noteq> [] \<and>
   last (butlast (str_split CR [ACK, CR])) \<noteq> [] \<and>
   set (last (butlast (str_split CR [ACK, CR]))) \<subseteq> {ACK} \<and>
   fst (send_receive ''aXR'' \<lparr>sent = [], incoming = [Data [ACK, CR]], comms_log = []\<rparr>)
     = Inr (True, None)"
proof -
  have h: "is_ascii ''aXR''" "is_ascii [ACK, CR]" "hd [ACK, CR] \<noteq> NACK" "ACK \<noteq> CR"
    by (simp_all add: is_ascii_def ACK_def CR_def NACK_def)
  show ?thesis
    using h send_receive_empty_payload_is_none
      [of "''aXR''" "\<lparr>sent = [], incoming = [Data [ACK, CR]], comms_log = []\<rparr>" "[]"
          "[ACK, CR]" True]
    by (simp add: split_ACK_CR)
qed

section \<open>Splitting a reply into segments\<close>

lemma str_split_not_Nil: "str_split c s \<noteq> []"
  by (induction s) (auto split: list.splits)

lemma str_split_no_sep: "m \<in> set (str_split c s) \<Longrightarrow> c \<notin> set m"
proof (induction s arbitrary: m)
  case Nil
  then show ?case by simp
next
  case (Cons x xs)
  show ?case
  proof (cases "x = c")
    case True
    with Cons show ?thesis by auto
  next
    case False
    obtain y ys where sp: "str_split c xs = y # ys"
      using str_split_not_Nil [of c xs] by (cases "str_split c xs") auto
    with Cons.prems False have "m = x # y \<or> m \<in> set ys" by simp
    moreover have "c \<notin> set y" using Cons.IH [of y] sp by simp
    moreover have "m \<in> set ys \<Longrightarrow> c \<notin> set m" using Cons.IH [of m] sp by simp
    ultimately show ?thesis using False by auto
  qed
qed

lemma str_split_subset: "m \<in> set (str_split c s) \<Longrightarrow> set m \<subseteq> set s"
proof (induction s arbitrary: m)
  case Nil
  then show ?case by simp
next
  case (Cons x xs)
  show ?case
  proof (cases "x = c")
    case True
    with Cons show ?thesis by auto
  next
    case False
    obtain y ys where sp: "str_split c xs = y # ys"
      using str_split_not_Nil [of c xs] by (cases "str_split c xs") auto
    with Cons.prems False have "m = x # y \<or> m \<in> set ys" by simp
    moreover have "set y \<subseteq> set xs" using Cons.IH [of y] sp by simp
    moreover have "m \<in> set ys \<Longrightarrow> set m \<subseteq> set xs" using Cons.IH [of m] sp by simp
    ultimately show ?thesis by auto
  qed
qed

lemma str_split_single: "c \<notin> set m \<Longrightarrow> str_split c (m @ [c]) = [m, []]"
  by (induction m) auto

lemma is_ascii_subset: "is_ascii s \<Longrightarrow> set m \<subseteq> set s \<Longrightarrow> is_ascii m"
  by (auto simp: is_ascii_def list_all_iff)

lemma classify_last:
  assumes "butlast (str_split CR reply) \<noteq> []"
  shows "classify reply = classify (last (butlast (str_split CR reply)) @ [CR])"
proof -
  define seg where "seg = last (butlast (str_split CR reply))"
  have "seg \<in> set (butlast (str_split CR reply))"
    unfolding seg_def using assms by (rule last_in_set)
  then have "seg \<in> set (str_split CR reply)" by (rule in_set_butlastD)
  then have "CR \<notin> set seg" by (rule str_split_no_sep)
  then have "butlast (str_split CR (seg @ [CR])) = [seg]"
    by (simp add: str_split_single)
  then have "classify (seg @ [CR]) =
      (case seg of [] \<Rightarrow> Inl IndexError
       | x # xs \<Rightarrow> if x = ACK
           then Inr (True, or_None (str_strip [CR] (str_strip [ACK] (x # xs))))
           else Inr (False, None))"
    by (simp add: classify_def)
  moreover have "classify reply =
      (case seg of [] \<Rightarrow> Inl IndexError
       | x # xs \<Rightarrow> if x = ACK
           then Inr (True, or_None (str_strip [CR] (str_strip [ACK] (x # xs))))
           else Inr (False, None))"
    unfolding classify_def Let_def seg_def using assms by simp
  ultimately show ?thesis unfolding seg_def by simp
qed

lemma len_gt1_ne: "1 < length xs \<Longrightarrow> xs \<noteq> []"
  by auto

lemma send_receive_log_multi:
  assumes "is_ascii request" and "incoming c = Data reply # rest"
    and "is_ascii reply" and "hd reply \<noteq> NACK"
    and "length (butlast (str_split CR reply)) > 1"
  shows "comms_log (snd (send_receive request c)) =
     comms_log c @
       [(DEBUG, SendingRequest (priv_format_message (request @ [CR]))),
        (DEBUG, SentBytes (Suc (length request))),
        (DEBUG, ReceivedResponse (priv_format_message reply)),
        (WARNING, MultipleMessages (priv_format_message reply))]"
proof -
  have ne: "reply \<noteq> []" using assms(5) by (cases reply) auto
  have m: "butlast (str_split CR reply) \<noteq> []" using assms(5) by (rule len_gt1_ne)
  show ?thesis
    using assms ne m
    by (simp add: send_receive_def priv_send_receive_data Let_def after_send_def log_comms_def
        split: list.splits)
qed

lemma send_receive_final_alone:
  assumes "is_ascii request" and "incoming c = Data reply # rest"
    and "is_ascii reply" and "reply \<noteq> []" and "hd reply \<noteq> NACK"
    and "butlast (str_split CR reply) \<noteq> []"
    and "last (butlast (str_split CR reply)) \<noteq> []"
  shows "fst (send_receive request c) =
     fst (send_receive request
            (c\<lparr>incoming := Data (last (butlast (str_split CR reply)) @ [CR]) # rest\<rparr>))"
proof -
  define seg where "seg = last (butlast (str_split CR reply))"
  have "seg \<in> set (butlast (str_split CR reply))"
    unfolding seg_def using assms(6) by (rule last_in_set)
  then have mem: "seg \<in> set (str_split CR reply)" by (rule in_set_butlastD)
  have "set seg \<subseteq> set reply" using mem by (rule str_split_subset)
  with assms(3) have "is_ascii seg" by (rule is_ascii_subset)
  then have asc: "is_ascii (seg @ [CR])" by (simp only: is_ascii_snoc_CR)
  obtain x xs where seg: "seg = x # xs"
    using assms(7) unfolding seg_def [symmetric] by (cases seg) auto
  have lhs: "fst (send_receive request c) = classify (seg @ [CR])"
    using assms classify_last [OF assms(6)]
    by (simp add: send_receive_fst_data seg_def)
  have inc: "incoming (c\<lparr>incoming := Data (seg @ [CR]) # rest\<rparr>) = Data (seg @ [CR]) # rest"
    by simp
  have cl: "butlast (str_split CR (seg @ [CR])) = [seg]"
    using str_split_no_sep [OF mem] by (simp add: str_split_single)
  have rhs: "fst (send_receive request (c\<lparr>incoming := Data (seg @ [CR]) # rest\<rparr>)) =
      (if x = NACK then Inr (False, None) else classify (seg @ [CR]))"
  proof -
    have "fst (send_receive request (c\<lparr>incoming := Data (seg @ [CR]) # rest\<rparr>)) =
       (if \<not> is_ascii (seg @ [CR]) then Inr (False, None)
        else if seg @ [CR] = [] then Inl IndexError
        else if hd (seg @ [CR]) = NACK then Inr (False, None)
        else classify (seg @ [CR]))"
      by (rule send_receive_fst_data [OF assms(1) inc])
    also have "\<dots> = (if hd (seg @ [CR]) = NACK then Inr (False, None)
        else classify (seg @ [CR]))"
      using asc by simp
    also have "hd (seg @ [CR]) = x" by (simp add: seg)
    finally show ?thesis .
  qed
  have "x = NACK \<Longrightarrow> classify (seg @ [CR]) = Inr (False, None)"
    using cl seg by (simp add: classify_def ACK_def NACK_def)
  with lhs rhs show ?thesis unfolding seg_def by auto
qed

lemma send_receive_final_formula:
  assumes "is_ascii request" and "incoming c = Data reply # rest"
    and "is_ascii reply" and "reply \<noteq> []" and "hd reply \<noteq> NACK"
    and "butlast (str_split CR reply) \<noteq> []"
    and "last (butlast (str_split CR reply)) \<noteq> []"
  shows "fst (send_receive request c) =
     (if hd (last (butlast (str_split CR reply))) = ACK
      then Inr (True, or_None (str_strip [CR]
                  (str_strip [ACK] (last (butlast (str_split CR reply))))))
      else Inr (False, None))"
proof -
  define seg where "seg = last (butlast (str_split CR reply))"
  obtain x xs where seg: "seg = x # xs"
    using assms(7) unfolding seg_def [symmetric] by (cases seg) auto
  have "classify reply =
      (case seg of [] \<Rightarrow> Inl IndexError
       | x # xs \<Rightarrow> if x = ACK
           then Inr (True, or_None (str_strip [CR] (str_strip [ACK] (x # xs))))
           else Inr (False, None))"
    unfolding classify_def Let_def seg_def using assms(6) by simp
  then have "classify reply =
      (if hd seg = ACK then Inr (True, or_None (str_strip [CR] (str_strip [ACK] seg)))
       else Inr (False, None))"
    by (simp add: seg)
  then show ?thesis
    using assms unfolding seg_def by (simp add: send_receive_fst_data)
qed

lemma split_two: "butlast (str_split CR [ACK, CHR ''A'', CR, ACK, CHR ''B'', CR]) =
    [[ACK, CHR ''A''], [ACK, CHR ''B'']]"
  by (simp add: ACK_def CR_def)

lemma strip_ACK_B: "or_None (str_strip [CR] (str_strip [ACK] [ACK, CHR ''B''])) = Some ''B''"
  by (simp add: str_strip_def or_None_def ACK_def CR_def)

text \<open>
  C1 (as amended). For a reply that decodes as ASCII, does not begin with the
  negative-acknowledge character and holds more than one CR-terminated segment, the last
  of them non-empty, the final segment alone decides the result of \<open>send_receive\<close>: the
  result is the one the final segment would give as a whole reply, success exactly when
  that segment begins with ACK, with the segment stripped of ACK as payload; and the call
  logs one warning about multiple messages. On the reply ACK A CR ACK B CR the result is
  success with payload \<open>B\<close> and one warning.
\<close>

theorem final_segment_governs:
  "(is_ascii request \<and> incoming c = Data reply # rest \<and> is_ascii reply \<and>
    hd reply \<noteq> NACK \<and> 1 < length (butlast (str_split CR reply)) \<and>
    last (butlast (str_split CR reply)) \<noteq> [] \<longrightarrow>
      fst (send_receive request c) =
        fst (send_receive request
               (c\<lparr>incoming := Data (last (butlast (str_split CR reply)) @ [CR]) # rest\<rparr>)) \<and>
      fst (send_receive request c) =
        (if hd (last (butlast (str_split CR reply))) = ACK
         then Inr (True, or_None (str_strip [CR]
                     (str_strip [ACK] (last (butlast (str_split CR reply))))))
         else Inr (False, None)) \<and>
      comms_log (snd (send_receive request c)) =
        comms_log c @
          [(DEBUG, SendingRequest (priv_format_message (request @ [CR]))),
           (DEBUG, SentBytes (Suc (length request))),
           (DEBUG, ReceivedResponse (priv_format_message reply)),
           (WARNING, MultipleMessages (priv_format_message reply))]) \<and>
   (is_ascii request \<and> incoming c = Data [ACK, CHR ''A'', CR, ACK, CHR ''B'', CR] # rest \<longrightarrow>
      fst (send_receive request c) = Inr (True, Some ''B'') \<and>
      filter (\<lambda>e. fst e = WARNING) (comms_log (snd (send_receive request c))) =
        filter (\<lambda>e. fst e = WARNING) (comms_log c) @
          [(WARNING, MultipleMessages
                       (priv_format_message [ACK, CHR ''A'', CR, ACK, CHR ''B'', CR]))])"
proof (intro conjI impI)
  assume a: "is_ascii request \<and> incoming c = Data reply # rest \<and> is_ascii reply \<and>
    hd reply \<noteq> NACK \<and> 1 < length (butlast (str_split CR reply)) \<and>
    last (butlast (str_split CR reply)) \<noteq> []"
  then have m: "butlast (str_split CR reply) \<noteq> []" by (intro len_gt1_ne) simp
  then have ne: "reply \<noteq> []" by (cases reply) auto
  show "fst (send_receive request c) =
        fst (send_receive request
               (c\<lparr>incoming := Data (last (butlast (str_split CR reply)) @ [CR]) # rest\<rparr>))"
    using a m ne by (intro send_receive_final_alone) simp_all
  show "fst (send_receive request c) =
        (if hd (last (butlast (str_split CR reply))) = ACK
         then Inr (True, or_None (str_strip [CR]
                     (str_strip [ACK] (last (butlast (str_split CR reply))))))
         else Inr (False, None))"
    using a m ne by (intro send_receive_final_formula) simp_all
  show "comms_log (snd (send_receive request c)) =
        comms_log c @
          [(DEBUG, SendingRequest (priv_format_message (request @ [CR]))),
           (DEBUG, SentBytes (Suc (length request))),
           (DEBUG, ReceivedResponse (priv_format_message reply)),
           (WARNING, MultipleMessages (priv_format_message reply))]"
    using a by (intro send_receive_log_multi) simp_all
next
  let ?r = "[ACK, CHR ''A'', CR, ACK, CHR ''B'', CR]"
  assume a: "is_ascii request \<and> incoming c = Data ?r # rest"
  have r: "is_ascii ?r" "hd ?r \<noteq> NACK" "?r \<noteq> []"
    by (simp_all add: is_ascii_def ACK_def CR_def NACK_def)
  have m: "butlast (str_split CR ?r) \<noteq> []" "last (butlast (str_split CR ?r)) \<noteq> []"
    "1 < length (butlast (str_split CR ?r))"
    by (simp_all only: split_two, simp_all)
  have "fst (send_receive request c) =
        (if hd (last (butlast (str_split CR ?r))) = ACK
         then Inr (True, or_None (str_strip [CR]
                     (str_strip [ACK] (last (butlast (str_split CR ?r))))))
         else Inr (False, None))"
    using a r m by (intro send_receive_final_formula) simp_all
  then show "fst (send_receive request c) = Inr (True, Some ''B'')"
    by (simp del: str_split.simps add: split_two strip_ACK_B)
  have "comms_log (snd (send_receive request c)) =
        comms_log c @
          [(DEBUG, SendingRequest (priv_format_message (request @ [CR]))),
           (DEBUG, SentBytes (Suc (length request))),
           (DEBUG, ReceivedResponse (priv_format_message ?r)),
           (WARNING, MultipleMessages (priv_format_message ?r))]"
    using a r m by (intro send_receive_log_multi) simp_all
  then show "filter (\<lambda>e. fst e = WARNING) (comms_log (snd (send_receive request c))) =
        filter (\<lambda>e. fst e = WARNING) (comms_log c) @
          [(WARNING, MultipleMessages (priv_format_message ?r))]"
    by simp
qed

theorem final_segment_governs_witness:
  "is_ascii ''aU'' \<and>
   is_ascii [ACK, CHR ''A'', CR, ACK, CHR ''B'', CR] \<and>
   hd [ACK, CHR ''A'', CR, ACK, CHR ''B'', CR] \<noteq> NACK \<and>
   1 < length (butlast (str_split CR [ACK, CHR ''A'', CR, ACK, CHR ''B'', CR])) \<and>
   last (butlast (str_split CR [ACK, CHR ''A'', CR, ACK, CHR ''B'', CR])) \<noteq> [] \<and>
   fst (send_receive ''aU''
          \<lparr>sent = [], incoming = [Data [ACK, CHR ''A'', CR, ACK, CHR ''B'', CR]],
             comms_log = []\<rparr>) =
   fst (send_receive ''aU''
          \<lparr>sent = [], incoming = [Data [ACK, CHR ''B'', CR]], comms_log = []\<rparr>) \<and>
   fst (send_receive ''aU''
          \<lparr>sent = [], incoming = [Data [ACK, CHR ''A'', CR, ACK, CHR ''B'', CR]],
             comms_log = []\<rparr>) = Inr (True, Some ''B'') \<and>
   filter (\<lambda>e. fst e = WARNING)
     (comms_log (snd (send_receive ''aU''
          \<lparr>sent = [], incoming = [Data [ACK, CHR ''A'', CR, ACK, CHR ''B'', CR]],
             comms_log = []\<rparr>))) =
     [(WARNING, MultipleMessages (priv_format_message [ACK, CHR ''A'', CR, ACK, CHR ''B'', CR]))]"
proof -
  have h: "is_ascii ''aU''" "is_ascii [ACK, CHR ''A'', CR, ACK, CHR ''B'', CR]"
    "hd [ACK, CHR ''A'', CR, ACK, CHR ''B'', CR] \<noteq> NACK"
    by (simp_all add: is_ascii_def ACK_def CR_def NACK_def)
  show ?thesis
    using h final_segment_governs
      [of "''aU''"
          "\<lparr>sent = [], incoming = [Data [ACK, CHR ''A'', CR, ACK, CHR ''B'', CR]],
             comms_log = []\<rparr>"
          "[ACK, CHR ''A'', CR, ACK, CHR ''B'', CR]" "[]"]
    by (auto simp del: str_split.simps simp add: split_two)
qed

text \<open>
  C1 as the specification words it fails: the final segment ACK B alone gives success
  with payload \<open>B\<close>, but behind an earlier segment that begins with the
  negative-acknowledge character, or that holds a byte outside ASCII, the same final
  segment gives failure.
\<close>

theorem earlier_segment_overrides_final_segment:
  "fst (send_receive ''aU''
          \<lparr>sent = [], incoming = [Data [ACK, CHR ''B'', CR]], comms_log = []\<rparr>)
     = Inr (True, Some ''B'') \<and>
   butlast (str_split CR [NACK, CHR ''A'', CR, ACK, CHR ''B'', CR])
     = [[NACK, CHR ''A''], [ACK, CHR ''B'']] \<and>
   fst (send_receive ''aU''
          \<lparr>sent = [], incoming = [Data [NACK, CHR ''A'', CR, ACK, CHR ''B'', CR]],
             comms_log = []\<rparr>)
     = Inr (False, None) \<and>
   butlast (str_split CR [ACK, CHR 0x80, CR, ACK, CHR ''B'', CR])
     = [[ACK, CHR 0x80], [ACK, CHR ''B'']] \<and>
   fst (send_receive ''aU''
          \<lparr>sent = [], incoming = [Data [ACK, CHR 0x80, CR, ACK, CHR ''B'', CR]],
             comms_log = []\<rparr>)
     = Inr (False, None)"
  by (simp add: send_receive_fst_data classify_def is_ascii_def ACK_def CR_def NACK_def
     str_strip_def or_None_def)

text \<open>
  C2 fails on the code: \<open>send_receive\<close> raises instead of returning a pair when the
  reply holds no carriage return, when it is empty, when its last segment is empty, and
  when \<^verbatim>\<open>recv\<close> times out.
\<close>

theorem send_receive_raises:
  "fst (send_receive ''aU'' \<lparr>sent = [], incoming = [Data [ACK, CHR ''A'']], comms_log = []\<rparr>)
     = Inl IndexError \<and>
   fst (send_receive ''aU'' \<lparr>sent = [], incoming = [Data []], comms_log = []\<rparr>)
     = Inl IndexError \<and>
   fst (send_receive ''aU'' \<lparr>sent = [], incoming = [Data [CR]], comms_log = []\<rparr>)
     = Inl IndexError \<and>
   fst (send_receive ''aU'' \<lparr>sent = [], incoming = [Timeout], comms_log = []\<rparr>)
     = Inl SocketTimeout \<and>
   fst (send_receive ''aU'' \<lparr>sent = [], incoming = [], comms_log = []\<rparr>)
     = Inl SocketTimeout"
proof (intro conjI)
  have a: "is_ascii ''aU''" by (simp add: is_ascii_def)
  show "fst (send_receive ''aU'' \<lparr>sent = [], incoming = [Data [ACK, CHR ''A'']], comms_log = []\<rparr>)
     = Inl IndexError"
    by (simp add: send_receive_fst_data a classify_def is_ascii_def ACK_def CR_def NACK_def)
  show "fst (send_receive ''aU'' \<lparr>sent = [], incoming = [Data []], comms_log = []\<rparr>)
     = Inl IndexError"
    by (simp add: send_receive_fst_data a is_ascii_def)
  show "fst (send_receive ''aU'' \<lparr>sent = [], incoming = [Data [CR]], comms_log = []\<rparr>)
     = Inl IndexError"
    by (simp add: send_receive_fst_data a classify_def is_ascii_def ACK_def CR_def NACK_def)
  show "fst (send_receive ''aU'' \<lparr>sent = [], incoming = [Timeout], comms_log = []\<rparr>)
     = Inl SocketTimeout"
    by (simp add: send_receive_def priv_send_receive_def priv_send_ascii a recv_def
        incoming_after_send)
  show "fst (send_receive ''aU'' \<lparr>sent = [], incoming = [], comms_log = []\<rparr>)
     = Inl SocketTimeout"
    by (simp add: send_receive_def priv_send_receive_def priv_send_ascii a recv_def
        incoming_after_send)
qed

section \<open>What a transaction does to the wire\<close>

lemma send_receive_not_ascii:
  "\<not> is_ascii request \<Longrightarrow> fst (send_receive request c) = Inl UnicodeEncodeError"
  by (simp add: send_receive_def priv_send_receive_def priv_send_def encode_def
      is_ascii_snoc_CR Let_def)

lemma priv_send_receive_wire:
  assumes "is_ascii request"
  shows "sent (snd (priv_send_receive request c)) = sent c @ [request @ [CR]] \<and>
         incoming (snd (priv_send_receive request c)) = tl (incoming c)"
proof (cases "incoming c")
  case Nil
  then show ?thesis
    using assms
    by (simp add: priv_send_receive_def priv_send_ascii recv_def incoming_after_send
        after_send_def log_comms_def)
next
  case (Cons r rest)
  show ?thesis
  proof (cases r)
    case Timeout
    with Cons show ?thesis
      using assms
      by (simp add: priv_send_receive_def priv_send_ascii recv_def incoming_after_send
          after_send_def log_comms_def)
  next
    case (Data reply)
    with Cons have "incoming c = Data reply # rest" by simp
    then show ?thesis
      using assms
      by (simp add: priv_send_receive_data Let_def after_send_def log_comms_def)
  qed
qed

lemma send_receive_wire:
  assumes "is_ascii request"
  shows "sent (snd (send_receive request c)) = sent c @ [request @ [CR]] \<and>
         incoming (snd (send_receive request c)) = tl (incoming c)"
proof -
  obtain r c1 where p: "priv_send_receive request c = (r, c1)"
    by (cases "priv_send_receive request c")
  have w: "sent c1 = sent c @ [request @ [CR]] \<and> incoming c1 = tl (incoming c)"
    using priv_send_receive_wire [OF assms, of c] p by simp
  have "sent (snd (send_receive request c)) = sent c1 \<and>
        incoming (snd (send_receive request c)) = incoming c1"
    by (simp add: send_receive_def p Let_def log_comms_def
        split: sum.splits option.splits list.splits)
  with w show ?thesis by simp
qed

lemma send_receive_returned_sent:
  assumes "fst (send_receive request c) = Inr r"
  shows "sent (snd (send_receive request c)) = sent c @ [request @ [CR]]"
proof -
  have "is_ascii request"
    using assms send_receive_not_ascii [of request c] by (cases "is_ascii request") auto
  then show ?thesis using send_receive_wire by simp
qed

lemma send_receive_failure_no_payload:
  "fst (send_receive request c) = Inr (False, d) \<Longrightarrow> d = None"
  by (auto simp: send_receive_def Let_def
      split: prod.splits sum.splits option.splits list.splits if_splits)

section \<open>Sending a command\<close>

lemma send_command_snd:
  "snd (send_command command address m) =
     m\<lparr>comms := snd (send_receive (address @ string command) (comms m))\<rparr>"
  by (simp add: send_command_def split: prod.splits sum.splits)

lemma send_command_fst:
  "fst (send_command command address m) =
     (case fst (send_receive (address @ string command) (comms m)) of
        Inl e \<Rightarrow> Inl e
      | Inr r \<Rightarrow> Inr ())"
  by (simp add: send_command_def split: prod.splits sum.splits)

text \<open>
  C4 (as amended). \<open>send_command\<close> performs exactly one transaction, whose body is the
  address followed by the rendered command: the controller changes in its link only,
  the link is the one \<open>send_receive\<close> leaves, one frame goes out and one receive is
  used up. It returns nothing: whenever the transaction returns a pair, the method
  returns \<open>None\<close>, whatever the success flag and the payload are.
\<close>

theorem send_command_one_transaction:
  "snd (send_command command address m) =
     m\<lparr>comms := snd (send_receive (address @ string command) (comms m))\<rparr> \<and>
   fst (send_command command address m) =
     (case fst (send_receive (address @ string command) (comms m)) of
        Inl e \<Rightarrow> Inl e
      | Inr r \<Rightarrow> Inr ()) \<and>
   (is_ascii (address @ string command) \<longrightarrow>
      sent (comms (snd (send_command command address m))) =
        sent (comms m) @ [address @ string command @ [CR]] \<and>
      incoming (comms (snd (send_command command address m))) = tl (incoming (comms m)))"
proof (intro conjI impI)
  show "snd (send_command command address m) =
     m\<lparr>comms := snd (send_receive (address @ string command) (comms m))\<rparr>"
    by (simp add: send_command_def split: prod.splits sum.splits)
  then have s: "comms (snd (send_command command address m)) =
     snd (send_receive (address @ string command) (comms m))"
    by simp
  show "fst (send_command command address m) =
     (case fst (send_receive (address @ string command) (comms m)) of
        Inl e \<Rightarrow> Inl e
      | Inr r \<Rightarrow> Inr ())"
    by (simp add: send_command_def split: prod.splits sum.splits)
  assume a: "is_ascii (address @ string command)"
  show "sent (comms (snd (send_command command address m))) =
        sent (comms m) @ [address @ string command @ [CR]]"
    using send_receive_wire [OF a, of "comms m"] by (simp only: s) simp
  show "incoming (comms (snd (send_command command address m))) = tl (incoming (comms m))"
    using send_receive_wire [OF a, of "comms m"] by (simp only: s)
qed

theorem send_command_one_transaction_witness:
  "is_ascii (''a'' @ string (Command ''BM3'')) \<and>
   sent (comms (snd (send_command (Command ''BM3'') ''a''
      \<lparr>comms = \<lparr>sent = [], incoming = [Data [NACK, CR]], comms_log = []\<rparr>,
         initialised = True, stop_requested = False, threads = [], microlab_log = [],
         comms_level = DEBUG, stop_in = None\<rparr>))) = [''aBM3'' @ [CR]] \<and>
   incoming (comms (snd (send_command (Command ''BM3'') ''a''
      \<lparr>comms = \<lparr>sent = [], incoming = [Data [NACK, CR]], comms_log = []\<rparr>,
         initialised = True, stop_requested = False, threads = [], microlab_log = [],
         comms_level = DEBUG, stop_in = None\<rparr>))) = []"
proof -
  have h: "is_ascii (''a'' @ string (Command ''BM3''))" by (simp add: is_ascii_def)
  show ?thesis
    using h send_command_one_transaction [THEN conjunct2, THEN conjunct2,
      of "''a''" "Command ''BM3''"
      "\<lparr>comms = \<lparr>sent = [], incoming = [Data [NACK, CR]], comms_log = []\<rparr>,
         initialised = True, stop_requested = False, threads = [], microlab_log = [],
         comms_level = DEBUG, stop_in = None\<rparr>"]
    by simp
qed

text \<open>
  C4 as the specification words it fails: the transaction succeeds on one reply and fails
  on the other, and \<open>send_command\<close> hands the same value to its caller in both cases and
  logs nothing on the controller.
\<close>

theorem send_command_hides_failure:
  "fst (send_receive ''aBM3'' \<lparr>sent = [], incoming = [Data [ACK, CR]], comms_log = []\<rparr>)
     = Inr (True, None) \<and>
   fst (send_receive ''aBM3'' \<lparr>sent = [], incoming = [Data [NACK, CR]], comms_log = []\<rparr>)
     = Inr (False, None) \<and>
   fst (send_command (Command ''BM3'') ''a''
      \<lparr>comms = \<lparr>sent = [], incoming = [Data [ACK, CR]], comms_log = []\<rparr>,
         initialised = True, stop_requested = False, threads = [], microlab_log = [],
         comms_level = DEBUG, stop_in = None\<rparr>) = Inr () \<and>
   fst (send_command (Command ''BM3'') ''a''
      \<lparr>comms = \<lparr>sent = [], incoming = [Data [NACK, CR]], comms_log = []\<rparr>,
         initialised = True, stop_requested = False, threads = [], microlab_log = [],
         comms_level = DEBUG, stop_in = None\<rparr>) = Inr () \<and>
   microlab_log (snd (send_command (Command ''BM3'') ''a''
      \<lparr>comms = \<lparr>sent = [], incoming = [Data [NACK, CR]], comms_log = []\<rparr>,
         initialised = True, stop_requested = False, threads = [], microlab_log = [],
         comms_level = DEBUG, stop_in = None\<rparr>)) = []"
proof -
  have a: "is_ascii ''aBM3''" by (simp add: is_ascii_def)
  have 1: "fst (send_receive ''aBM3'' \<lparr>sent = [], incoming = [Data [ACK, CR]], comms_log = []\<rparr>)
     = Inr (True, None)"
    by (simp add: send_receive_fst_data a classify_def is_ascii_def ACK_def CR_def NACK_def
        str_strip_def or_None_def)
  have 2: "fst (send_receive ''aBM3'' \<lparr>sent = [], incoming = [Data [NACK, CR]], comms_log = []\<rparr>)
     = Inr (False, None)"
    by (simp add: send_receive_fst_data a is_ascii_def CR_def NACK_def)
  show ?thesis
    using 1 2 by (simp add: send_command_fst send_command_snd)
qed

section \<open>Starting a cycle\<close>

text \<open>
  C6. A call of \<open>cycle_commands\<close> while a cycle is running, that is while the list of
  threads is not empty, only logs an error: the threads, the stop flag, the link and
  every other field stay as they are, so no task is spawned. A controller with at most
  one thread has at most one thread after any call.
\<close>

theorem cycle_commands_while_running:
  "(threads m \<noteq> [] \<longrightarrow>
      cycle_commands commands address m =
        m\<lparr>microlab_log := microlab_log m @ [(ERROR, CycleAlreadyRunning)]\<rparr> \<and>
      threads (cycle_commands commands address m) = threads m \<and>
      stop_requested (cycle_commands commands address m) = stop_requested m \<and>
      comms (cycle_commands commands address m) = comms m) \<and>
   (length (threads m) \<le> 1 \<longrightarrow> length (threads (cycle_commands commands address m)) \<le> 1)"
  by (auto simp: cycle_commands_def log_microlab_def Let_def)

theorem cycle_commands_while_running_witness:
  "threads \<lparr>comms = \<lparr>sent = [], incoming = [], comms_log = []\<rparr>,
         initialised = True, stop_requested = False,
         threads = [Thread [Command ''BM3''] ''a'' True], microlab_log = [],
         comms_level = ERROR, stop_in = None\<rparr> \<noteq> [] \<and>
   length (threads \<lparr>comms = \<lparr>sent = [], incoming = [], comms_log = []\<rparr>,
         initialised = True, stop_requested = False,
         threads = [Thread [Command ''BM3''] ''a'' True], microlab_log = [],
         comms_level = ERROR, stop_in = None\<rparr>) \<le> 1 \<and>
   cycle_commands [Command ''CD7''] ''a''
      \<lparr>comms = \<lparr>sent = [], incoming = [], comms_log = []\<rparr>,
         initialised = True, stop_requested = False,
         threads = [Thread [Command ''BM3''] ''a'' True], microlab_log = [],
         comms_level = ERROR, stop_in = None\<rparr> =
      \<lparr>comms = \<lparr>sent = [], incoming = [], comms_log = []\<rparr>,
         initialised = True, stop_requested = False,
         threads = [Thread [Command ''BM3''] ''a'' True],
         microlab_log = [(ERROR, CycleAlreadyRunning)],
         comms_level = ERROR, stop_in = None\<rparr>"
  using cycle_commands_while_running [of
      "\<lparr>comms = \<lparr>sent = [], incoming = [], comms_log = []\<rparr>,
         initialised = True, stop_requested = False,
         threads = [Thread [Command ''BM3''] ''a'' True], microlab_log = [],
         comms_level = ERROR, stop_in = None\<rparr>" "[Command ''CD7'']" "''a''"]
  by simp

section \<open>Leaving the cycle\<close>

lemma halt_execution_sent:
  assumes "halt_execution address m = (Inr u, m1)"
  shows "sent (comms m1) = sent (comms m) @ [address @ ''K'' @ [CR]] \<and>
         stop_requested m1 = stop_requested m \<and> threads m1 = threads m"
proof -
  obtain r c where sr: "send_receive (address @ ''K'') (comms m) = (r, c)"
    by (cases "send_receive (address @ ''K'') (comms m)")
  show ?thesis
  proof (cases r)
    case (Inl e)
    with sr assms show ?thesis by (simp add: halt_execution_def)
  next
    case (Inr p)
    then have "fst (send_receive (address @ ''K'') (comms m)) = Inr p" using sr by simp
    then have "sent (snd (send_receive (address @ ''K'') (comms m))) =
        sent (comms m) @ [(address @ ''K'') @ [CR]]"
      by (rule send_receive_returned_sent)
    then have s: "sent c = sent (comms m) @ [address @ ''K'' @ [CR]]" using sr by simp
    obtain ok d where p: "p = (ok, d)" by (cases p)
    have "m1 = log_microlab (if ok then DEBUG else ERROR)
                 (if ok then HaltSuccessful else HaltFailed) (m\<lparr>comms := c\<rparr>)"
      using assms sr Inr p by (simp add: halt_execution_def split: if_splits)
    then show ?thesis using s by (simp add: log_microlab_def)
  qed
qed

lemma priv_reset_cycle_idle:
  assumes "priv_reset_cycle address m = (Inr u, m')"
  shows "stop_requested m' = False \<and> threads m' = [] \<and>
         sent (comms m') = sent (comms m) @ [address @ ''K'' @ [CR]]"
proof -
  obtain r m1 where h: "halt_execution address m = (r, m1)"
    by (cases "halt_execution address m")
  show ?thesis
  proof (cases r)
    case (Inl e)
    with h assms show ?thesis by (simp add: priv_reset_cycle_def)
  next
    case (Inr v)
    with h have "halt_execution address m = (Inr v, m1)" by simp
    then have s: "sent (comms m1) = sent (comms m) @ [address @ ''K'' @ [CR]]"
      using halt_execution_sent by blast
    have "m' = m1\<lparr>stop_requested := False, threads := []\<rparr>"
      using assms h Inr by (simp add: priv_reset_cycle_def)
    then show ?thesis using s by simp
  qed
qed

lemma priv_reset_cycle_last:
  assumes "priv_reset_cycle address m = (Inr u, m')"
  shows "stop_requested m' = False \<and> threads m' = [] \<and>
         sent (comms m') \<noteq> [] \<and> last (sent (comms m')) = address @ ''K'' @ [CR]"
  using priv_reset_cycle_idle [OF assms] by simp

lemma poll_until_done_stopped:
  "poll_until_done Y n address m = Some (Inr Stopped, m') \<Longrightarrow>
   stop_requested m' = False \<and> threads m' = [] \<and>
   sent (comms m') \<noteq> [] \<and> last (sent (comms m')) = address @ ''K'' @ [CR]"
proof (induction n arbitrary: m)
  case 0
  then show ?case by simp
next
  case (Suc n)
  obtain r c where sr: "send_receive (address @ INSTRUMENT_DONE) (comms m) = (r, c)"
    by (cases "send_receive (address @ INSTRUMENT_DONE) (comms m)")
  show ?case
  proof (cases r)
    case (Inl e)
    with sr Suc.prems show ?thesis by simp
  next
    case (Inr p)
    show ?thesis
    proof (cases "snd p \<noteq> Some Y")
      case False
      with sr Inr Suc.prems show ?thesis by simp
    next
      case True
      obtain stop m2 where rs: "read_stop (m\<lparr>comms := c\<rparr>) = (stop, m2)"
        by (cases "read_stop (m\<lparr>comms := c\<rparr>)")
      show ?thesis
      proof (cases stop)
        case False
        with sr Inr True rs Suc.prems
        have "poll_until_done Y n address m2 = Some (Inr Stopped, m')" by simp
        then show ?thesis by (rule Suc.IH)
      next
        case stop: True
        obtain r3 m3 where rc: "priv_reset_cycle address m2 = (r3, m3)"
          by (cases "priv_reset_cycle address m2")
        with sr Inr True rs stop Suc.prems
        have "priv_reset_cycle address m2 = (Inr (), m')"
          by (cases r3) auto
        then show ?thesis by (rule priv_reset_cycle_last)
      qed
    qed
  qed
qed

lemma for_commands_stopped:
  "for_commands Y n commands address m = Some (Inr Stopped, m') \<Longrightarrow>
   stop_requested m' = False \<and> threads m' = [] \<and>
   sent (comms m') \<noteq> [] \<and> last (sent (comms m')) = address @ ''K'' @ [CR]"
proof (induction commands arbitrary: m)
  case Nil
  then show ?case by simp
next
  case (Cons command rest)
  obtain r m1 where sc: "send_command command address m = (r, m1)"
    by (cases "send_command command address m")
  show ?case
  proof (cases r)
    case (Inl e)
    with sc Cons.prems show ?thesis by simp
  next
    case (Inr u)
    show ?thesis
    proof (cases "poll_until_done Y n address m1")
      case None
      with sc Inr Cons.prems show ?thesis by simp
    next
      case (Some q)
      obtain r2 m2 where q: "q = (r2, m2)" by (cases q)
      show ?thesis
      proof (cases r2)
        case (Inl e)
        with sc Inr Some q Cons.prems show ?thesis by simp
      next
        case r2: (Inr ex)
        show ?thesis
        proof (cases ex)
          case Done
          with sc Inr Some q r2 Cons.prems
          have "for_commands Y n rest address m2 = Some (Inr Stopped, m')" by simp
          then show ?thesis by (rule Cons.IH)
        next
          case Stopped
          with sc Inr Some q r2 Cons.prems have "m2 = m'" by simp
          with Some q r2 Stopped
          have "poll_until_done Y n address m1 = Some (Inr Stopped, m')" by simp
          then show ?thesis by (rule poll_until_done_stopped)
        qed
      qed
    qed
  qed
qed

lemma cycle_loop_returned:
  "cycle_loop Y n commands address m = Some (Inr u, m') \<Longrightarrow>
   stop_requested m' = False \<and> threads m' = [] \<and>
   sent (comms m') \<noteq> [] \<and> last (sent (comms m')) = address @ ''K'' @ [CR]"
proof (induction n arbitrary: m)
  case 0
  then show ?case by simp
next
  case (Suc n)
  obtain stop m1 where rs: "read_stop m = (stop, m1)" by (cases "read_stop m")
  show ?case
  proof (cases stop)
    case True
    with rs Suc.prems have "priv_reset_cycle address m1 = (Inr u, m')" by simp
    then show ?thesis by (rule priv_reset_cycle_last)
  next
    case False
    show ?thesis
    proof (cases "for_commands Y n commands address m1")
      case None
      with rs False Suc.prems show ?thesis by simp
    next
      case (Some q)
      obtain r2 m2 where q: "q = (r2, m2)" by (cases q)
      show ?thesis
      proof (cases r2)
        case (Inl e)
        with rs False Some q Suc.prems show ?thesis by simp
      next
        case (Inr ex)
        show ?thesis
        proof (cases ex)
          case Done
          with rs False Some q Inr Suc.prems
          have "cycle_loop Y n commands address m2 = Some (Inr u, m')" by simp
          then show ?thesis by (rule Suc.IH)
        next
          case Stopped
          with rs False Some q Inr Suc.prems have "m2 = m'" by simp
          with Some q Inr Stopped
          have "for_commands Y n commands address m1 = Some (Inr Stopped, m')" by simp
          then show ?thesis by (rule for_commands_stopped)
        qed
      qed
    qed
  qed
qed

text \<open>
  Every return of the background thread's body leaves the controller idle: the halt
  frame is the last one sent, the stop flag is clear and the list of threads is empty.
\<close>

lemma priv_cycle_commands_returned:
  "priv_cycle_commands Y n commands address m = Some (Inr u, m') \<Longrightarrow>
   stop_requested m' = False \<and> threads m' = [] \<and>
   sent (comms m') \<noteq> [] \<and> last (sent (comms m')) = address @ ''K'' @ [CR]"
  unfolding priv_cycle_commands_def by (rule cycle_loop_returned)

text \<open>
  C7 fails on the code. The stop request is seen after a busy-poll that the device
  refuses, the cycle is reset, and the device does not answer the halt command in time:
  \<^verbatim>\<open>recv\<close> raises, the thread ends by that exception after it has sent the halt frame,
  and the stop flag stays set and the thread stays in the list. A controller left in
  that state refuses the next \<open>cycle_commands\<close>.
\<close>

theorem cycle_left_half_stopped:
  "priv_cycle_commands ''Y'' 3 [Command ''BM3''] ''a''
     \<lparr>comms = \<lparr>sent = [], incoming = [Data [ACK, CR], Data [NACK, CR], Timeout],
                comms_log = []\<rparr>,
        initialised = True, stop_requested = False,
        threads = [Thread [Command ''BM3''] ''a'' True], microlab_log = [],
        comms_level = DEBUG, stop_in = Some 1\<rparr> =
   Some (Inl SocketTimeout,
     \<lparr>comms = \<lparr>sent = [''aBM3'' @ [CR], ''aF'' @ [CR], ''aK'' @ [CR]], incoming = [],
                comms_log =
                  [(DEBUG, SendingRequest ''aBM3<CR>''), (DEBUG, SentBytes 5),
                   (DEBUG, ReceivedResponse ''<ACK><CR>''),
                   (DEBUG, SendingRequest ''aF<CR>''), (DEBUG, SentBytes 3),
                   (ERROR, ReceivedNACK),
                   (DEBUG, SendingRequest ''aK<CR>''), (DEBUG, SentBytes 3)]\<rparr>,
        initialised = True, stop_requested = True,
        threads = [Thread [Command ''BM3''] ''a'' True], microlab_log = [],
        comms_level = ERROR, stop_in = None\<rparr>) \<and>
   cycle_commands [Command ''BM3''] ''a''
     \<lparr>comms = \<lparr>sent = [''aBM3'' @ [CR], ''aF'' @ [CR], ''aK'' @ [CR]], incoming = [],
                comms_log =
                  [(DEBUG, SendingRequest ''aBM3<CR>''), (DEBUG, SentBytes 5),
                   (DEBUG, ReceivedResponse ''<ACK><CR>''),
                   (DEBUG, SendingRequest ''aF<CR>''), (DEBUG, SentBytes 3),
                   (ERROR, ReceivedNACK),
                   (DEBUG, SendingRequest ''aK<CR>''), (DEBUG, SentBytes 3)]\<rparr>,
        initialised = True, stop_requested = True,
        threads = [Thread [Command ''BM3''] ''a'' True], microlab_log = [],
        comms_level = ERROR, stop_in = None\<rparr> =
     \<lparr>comms = \<lparr>sent = [''aBM3'' @ [CR], ''aF'' @ [CR], ''aK'' @ [CR]], incoming = [],
                comms_log =
                  [(DEBUG, SendingRequest ''aBM3<CR>''), (DEBUG, SentBytes 5),
                   (DEBUG, ReceivedResponse ''<ACK><CR>''),
                   (DEBUG, SendingRequest ''aF<CR>''), (DEBUG, SentBytes 3),
                   (ERROR, ReceivedNACK),
                   (DEBUG, SendingRequest ''aK<CR>''), (DEBUG, SentBytes 3)]\<rparr>,
        initialised = True, stop_requested = True,
        threads = [Thread [Command ''BM3''] ''a'' True],
        microlab_log = [(ERROR, CycleAlreadyRunning)],
        comms_level = ERROR, stop_in = None\<rparr>"
  by code_simp

section \<open>Busy-polls that fail\<close>

text \<open>
  A busy-poll whose transaction returns the failure pair is handled as a poll that found
  the device not yet idle, that is as a successful poll with a payload other than
  \<^verbatim>\<open>Y_INFO_RESPONSE\<close>: the stop flag is read, and unless a stop is requested the loop
  polls again. This covers the polls answered by a negative acknowledge or by bytes
  outside ASCII; it says nothing of a poll whose transaction raises.
\<close>

theorem failed_poll_keeps_polling:
  "(fst (send_receive (address @ INSTRUMENT_DONE) (comms m)) = Inr (False, d) \<longrightarrow>
      poll_until_done Y (Suc n) address m =
        (case read_stop (m\<lparr>comms := snd (send_receive (address @ INSTRUMENT_DONE) (comms m))\<rparr>) of
           (True, m2) \<Rightarrow>
             (case priv_reset_cycle address m2 of
                (Inl e, m3) \<Rightarrow> Some (Inl e, m3)
              | (Inr _, m3) \<Rightarrow> Some (Inr Stopped, m3))
         | (False, m2) \<Rightarrow> poll_until_done Y n address m2)) \<and>
   (fst (send_receive (address @ INSTRUMENT_DONE) (comms m)) = Inr (True, p) \<and> p \<noteq> Some Y \<longrightarrow>
      poll_until_done Y (Suc n) address m =
        (case read_stop (m\<lparr>comms := snd (send_receive (address @ INSTRUMENT_DONE) (comms m))\<rparr>) of
           (True, m2) \<Rightarrow>
             (case priv_reset_cycle address m2 of
                (Inl e, m3) \<Rightarrow> Some (Inl e, m3)
              | (Inr _, m3) \<Rightarrow> Some (Inr Stopped, m3))
         | (False, m2) \<Rightarrow> poll_until_done Y n address m2)) \<and>
   (fst (send_receive (address @ INSTRUMENT_DONE) (comms m)) = Inr (False, d) \<and>
    stop_in m = None \<and> \<not> stop_requested m \<longrightarrow>
      poll_until_done Y (Suc n) address m =
        poll_until_done Y n address
          (m\<lparr>comms := snd (send_receive (address @ INSTRUMENT_DONE) (comms m))\<rparr>))"
proof (intro conjI impI)
  obtain r c where sr: "send_receive (address @ INSTRUMENT_DONE) (comms m) = (r, c)"
    by (cases "send_receive (address @ INSTRUMENT_DONE) (comms m)")
  {
    assume a: "fst (send_receive (address @ INSTRUMENT_DONE) (comms m)) = Inr (False, d)"
    then have "d = None" by (rule send_receive_failure_no_payload)
    with a sr have r: "r = Inr (False, None)" by simp
    show "poll_until_done Y (Suc n) address m =
        (case read_stop (m\<lparr>comms := snd (send_receive (address @ INSTRUMENT_DONE) (comms m))\<rparr>) of
           (True, m2) \<Rightarrow>
             (case priv_reset_cycle address m2 of
                (Inl e, m3) \<Rightarrow> Some (Inl e, m3)
              | (Inr _, m3) \<Rightarrow> Some (Inr Stopped, m3))
         | (False, m2) \<Rightarrow> poll_until_done Y n address m2)"
      by (simp add: sr r)
  }
  {
    assume a: "fst (send_receive (address @ INSTRUMENT_DONE) (comms m)) = Inr (True, p) \<and>
      p \<noteq> Some Y"
    with sr have r: "r = Inr (True, p)" by simp
    show "poll_until_done Y (Suc n) address m =
        (case read_stop (m\<lparr>comms := snd (send_receive (address @ INSTRUMENT_DONE) (comms m))\<rparr>) of
           (True, m2) \<Rightarrow>
             (case priv_reset_cycle address m2 of
                (Inl e, m3) \<Rightarrow> Some (Inl e, m3)
              | (Inr _, m3) \<Rightarrow> Some (Inr Stopped, m3))
         | (False, m2) \<Rightarrow> poll_until_done Y n address m2)"
      using a by (simp add: sr r)
  }
  {
    assume a: "fst (send_receive (address @ INSTRUMENT_DONE) (comms m)) = Inr (False, d) \<and>
      stop_in m = None \<and> \<not> stop_requested m"
    then have "fst (send_receive (address @ INSTRUMENT_DONE) (comms m)) = Inr (False, d)"
      by simp
    then have "d = None" by (rule send_receive_failure_no_payload)
    with a sr have r: "r = Inr (False, None)" by simp
    have "read_stop (m\<lparr>comms := c\<rparr>) = (False, m\<lparr>comms := c\<rparr>)"
      using a by (simp add: read_stop_def)
    then show "poll_until_done Y (Suc n) address m =
        poll_until_done Y n address
          (m\<lparr>comms := snd (send_receive (address @ INSTRUMENT_DONE) (comms m))\<rparr>)"
      by (simp add: sr r)
  }
qed

theorem failed_poll_keeps_polling_witness:
  "(fst (send_receive (''a'' @ INSTRUMENT_DONE) (comms (\<lparr>comms = \<lparr>sent = [], incoming = [Data [NACK, CR], Data [ACK, CHR ''Y'', CR]],
                 comms_log = []\<rparr>,
         initialised = True, stop_requested = False,
         threads = [Thread [Command ''BM3''] ''a'' True], microlab_log = [],
         comms_level = ERROR, stop_in = None\<rparr>))) = Inr (False, None)) \<and>
   (stop_in (\<lparr>comms = \<lparr>sent = [], incoming = [Data [NACK, CR], Data [ACK, CHR ''Y'', CR]],
                 comms_log = []\<rparr>,
         initialised = True, stop_requested = False,
         threads = [Thread [Command ''BM3''] ''a'' True], microlab_log = [],
         comms_level = ERROR, stop_in = None\<rparr>) = None) \<and>
   (\<not> stop_requested (\<lparr>comms = \<lparr>sent = [], incoming = [Data [NACK, CR], Data [ACK, CHR ''Y'', CR]],
                 comms_log = []\<rparr>,
         initialised = True, stop_requested = False,
         threads = [Thread [Command ''BM3''] ''a'' True], microlab_log = [],
         comms_level = ERROR, stop_in = None\<rparr>)) \<and>
   (poll_until_done ''Y'' (Suc 1) ''a'' (\<lparr>comms = \<lparr>sent = [], incoming = [Data [NACK, CR], Data [ACK, CHR ''Y'', CR]],
                 comms_log = []\<rparr>,
         initialised = True, stop_requested = False,
         threads = [Thread [Command ''BM3''] ''a'' True], microlab_log = [],
         comms_level = ERROR, stop_in = None\<rparr>) =
     poll_until_done ''Y'' 1 ''a''
       ((\<lparr>comms = \<lparr>sent = [], incoming = [Data [NACK, CR], Data [ACK, CHR ''Y'', CR]],
                 comms_log = []\<rparr>,
         initialised = True, stop_requested = False,
         threads = [Thread [Command ''BM3''] ''a'' True], microlab_log = [],
         comms_level = ERROR, stop_in = None\<rparr>)\<lparr>comms := snd (send_receive (''a'' @ INSTRUMENT_DONE) (comms (\<lparr>comms = \<lparr>sent = [], incoming = [Data [NACK, CR], Data [ACK, CHR ''Y'', CR]],
                 comms_log = []\<rparr>,
         initialised = True, stop_requested = False,
         threads = [Thread [Command ''BM3''] ''a'' True], microlab_log = [],
         comms_level = ERROR, stop_in = None\<rparr>)))\<rparr>)) \<and>
   (fst (send_receive (''a'' @ INSTRUMENT_DONE) (comms (\<lparr>comms = \<lparr>sent = [], incoming = [Data [ACK, CHR ''N'', CR]], comms_log = []\<rparr>,
         initialised = True, stop_requested = False,
         threads = [Thread [Command ''BM3''] ''a'' True], microlab_log = [],
         comms_level = ERROR, stop_in = None\<rparr>))) = Inr (True, Some ''N'')) \<and>
   Some ''N'' \<noteq> Some ''Y'' \<and>
   (poll_until_done ''Y'' (Suc 0) ''a'' (\<lparr>comms = \<lparr>sent = [], incoming = [Data [ACK, CHR ''N'', CR]], comms_log = []\<rparr>,
         initialised = True, stop_requested = False,
         threads = [Thread [Command ''BM3''] ''a'' True], microlab_log = [],
         comms_level = ERROR, stop_in = None\<rparr>) =
     (case read_stop ((\<lparr>comms = \<lparr>sent = [], incoming = [Data [ACK, CHR ''N'', CR]], comms_log = []\<rparr>,
         initialised = True, stop_requested = False,
         threads = [Thread [Command ''BM3''] ''a'' True], microlab_log = [],
         comms_level = ERROR, stop_in = None\<rparr>)\<lparr>comms := snd (send_receive (''a'' @ INSTRUMENT_DONE) (comms (\<lparr>comms = \<lparr>sent = [], incoming = [Data [ACK, CHR ''N'', CR]], comms_log = []\<rparr>,
         initialised = True, stop_requested = False,
         threads = [Thread [Command ''BM3''] ''a'' True], microlab_log = [],
         comms_level = ERROR, stop_in = None\<rparr>)))\<rparr>) of
        (True, m2) \<Rightarrow>
          (case priv_reset_cycle ''a'' m2 of
             (Inl e, m3) \<Rightarrow> Some (Inl e, m3)
           | (Inr _, m3) \<Rightarrow> Some (Inr Stopped, m3))
      | (False, m2) \<Rightarrow> poll_until_done ''Y'' 0 ''a'' m2))"
proof -
  have h1: "fst (send_receive (''a'' @ INSTRUMENT_DONE) (comms (\<lparr>comms = \<lparr>sent = [], incoming = [Data [NACK, CR], Data [ACK, CHR ''Y'', CR]],
                 comms_log = []\<rparr>,
         initialised = True, stop_requested = False,
         threads = [Thread [Command ''BM3''] ''a'' True], microlab_log = [],
         comms_level = ERROR, stop_in = None\<rparr>))) = Inr (False, None)"
    by (simp add: INSTRUMENT_DONE_def send_receive_fst_data is_ascii_def NACK_def CR_def)
  have s1: "stop_in (\<lparr>comms = \<lparr>sent = [], incoming = [Data [NACK, CR], Data [ACK, CHR ''Y'', CR]],
                 comms_log = []\<rparr>,
         initialised = True, stop_requested = False,
         threads = [Thread [Command ''BM3''] ''a'' True], microlab_log = [],
         comms_level = ERROR, stop_in = None\<rparr>) = None" by simp
  have s2: "\<not> stop_requested (\<lparr>comms = \<lparr>sent = [], incoming = [Data [NACK, CR], Data [ACK, CHR ''Y'', CR]],
                 comms_log = []\<rparr>,
         initialised = True, stop_requested = False,
         threads = [Thread [Command ''BM3''] ''a'' True], microlab_log = [],
         comms_level = ERROR, stop_in = None\<rparr>)" by simp
  have h2: "fst (send_receive (''a'' @ INSTRUMENT_DONE) (comms (\<lparr>comms = \<lparr>sent = [], incoming = [Data [ACK, CHR ''N'', CR]], comms_log = []\<rparr>,
         initialised = True, stop_requested = False,
         threads = [Thread [Command ''BM3''] ''a'' True], microlab_log = [],
         comms_level = ERROR, stop_in = None\<rparr>))) = Inr (True, Some ''N'')"
    by (simp add: INSTRUMENT_DONE_def send_receive_fst_data is_ascii_def classify_def
        str_strip_def or_None_def ACK_def NACK_def CR_def)
  have n2: "Some ''N'' \<noteq> Some ''Y''" by simp
  have c3: "poll_until_done ''Y'' (Suc 1) ''a'' (\<lparr>comms = \<lparr>sent = [], incoming = [Data [NACK, CR], Data [ACK, CHR ''Y'', CR]],
                 comms_log = []\<rparr>,
         initialised = True, stop_requested = False,
         threads = [Thread [Command ''BM3''] ''a'' True], microlab_log = [],
         comms_level = ERROR, stop_in = None\<rparr>) =
     poll_until_done ''Y'' 1 ''a''
       ((\<lparr>comms = \<lparr>sent = [], incoming = [Data [NACK, CR], Data [ACK, CHR ''Y'', CR]],
                 comms_log = []\<rparr>,
         initialised = True, stop_requested = False,
         threads = [Thread [Command ''BM3''] ''a'' True], microlab_log = [],
         comms_level = ERROR, stop_in = None\<rparr>)\<lparr>comms := snd (send_receive (''a'' @ INSTRUMENT_DONE) (comms (\<lparr>comms = \<lparr>sent = [], incoming = [Data [NACK, CR], Data [ACK, CHR ''Y'', CR]],
                 comms_log = []\<rparr>,
         initialised = True, stop_requested = False,
         threads = [Thread [Command ''BM3''] ''a'' True], microlab_log = [],
         comms_level = ERROR, stop_in = None\<rparr>)))\<rparr>)"
    using h1 s1 s2
      failed_poll_keeps_polling [where address = "''a''" and Y = "''Y''" and n = 1 and d = None and m = "\<lparr>comms = \<lparr>sent = [], incoming = [Data [NACK, CR], Data [ACK, CHR ''Y'', CR]],
                 comms_log = []\<rparr>,
         initialised = True, stop_requested = False,
         threads = [Thread [Command ''BM3''] ''a'' True], microlab_log = [],
         comms_level = ERROR, stop_in = None\<rparr>",
        THEN conjunct2, THEN conjunct2]
    by blast
  have c2: "poll_until_done ''Y'' (Suc 0) ''a'' (\<lparr>comms = \<lparr>sent = [], incoming = [Data [ACK, CHR ''N'', CR]], comms_log = []\<rparr>,
         initialised = True, stop_requested = False,
         threads = [Thread [Command ''BM3''] ''a'' True], microlab_log = [],
         comms_level = ERROR, stop_in = None\<rparr>) =
     (case read_stop ((\<lparr>comms = \<lparr>sent = [], incoming = [Data [ACK, CHR ''N'', CR]], comms_log = []\<rparr>,
         initialised = True, stop_requested = False,
         threads = [Thread [Command ''BM3''] ''a'' True], microlab_log = [],
         comms_level = ERROR, stop_in = None\<rparr>)\<lparr>comms := snd (send_receive (''a'' @ INSTRUMENT_DONE) (comms (\<lparr>comms = \<lparr>sent = [], incoming = [Data [ACK, CHR ''N'', CR]], comms_log = []\<rparr>,
         initialised = True, stop_requested = False,
         threads = [Thread [Command ''BM3''] ''a'' True], microlab_log = [],
         comms_level = ERROR, stop_in = None\<rparr>)))\<rparr>) of
        (True, m2) \<Rightarrow>
          (case priv_reset_cycle ''a'' m2 of
             (Inl e, m3) \<Rightarrow> Some (Inl e, m3)
           | (Inr _, m3) \<Rightarrow> Some (Inr Stopped, m3))
      | (False, m2) \<Rightarrow> poll_until_done ''Y'' 0 ''a'' m2)"
    using h2 n2
      failed_poll_keeps_polling [where address = "''a''" and Y = "''Y''" and n = 0 and p = "Some ''N''"
          and m = "\<lparr>comms = \<lparr>sent = [], incoming = [Data [ACK, CHR ''N'', CR]], comms_log = []\<rparr>,
         initialised = True, stop_requested = False,
         threads = [Thread [Command ''BM3''] ''a'' True], microlab_log = [],
         comms_level = ERROR, stop_in = None\<rparr>",
        THEN conjunct2, THEN conjunct1]
    by blast
  show ?thesis using h1 s1 s2 c3 h2 n2 c2 by blast
qed

text \<open>
  C8 fails on the code. A busy-poll can also fail by raising: the device acknowledges
  the command and then does not answer the poll in time, or answers with a reply that
  has no carriage return yet. The exception leaves \<open>send_receive\<close>, the loop has no
  handler for it, and the thread ends there: the cycle is aborted with no stop
  requested, no halt frame is sent, and the thread stays in the list, so the next
  \<open>cycle_commands\<close> is refused.
\<close>

theorem raising_poll_aborts_cycle:
  "priv_cycle_commands ''Y'' 3 [Command ''BM3''] ''a''
     \<lparr>comms = \<lparr>sent = [], incoming = [Data [ACK, CR], Timeout], comms_log = []\<rparr>,
        initialised = True, stop_requested = False,
        threads = [Thread [Command ''BM3''] ''a'' True], microlab_log = [],
        comms_level = DEBUG, stop_in = None\<rparr> =
   Some (Inl SocketTimeout,
     \<lparr>comms = \<lparr>sent = [''aBM3'' @ [CR], ''aF'' @ [CR]], incoming = [],
                comms_log =
                  [(DEBUG, SendingRequest ''aBM3<CR>''), (DEBUG, SentBytes 5),
                   (DEBUG, ReceivedResponse ''<ACK><CR>''),
                   (DEBUG, SendingRequest ''aF<CR>''), (DEBUG, SentBytes 3)]\<rparr>,
        initialised = True, stop_requested = False,
        threads = [Thread [Command ''BM3''] ''a'' True], microlab_log = [],
        comms_level = ERROR, stop_in = None\<rparr>) \<and>
   priv_cycle_commands ''Y'' 3 [Command ''BM3''] ''a''
     \<lparr>comms = \<lparr>sent = [], incoming = [Data [ACK, CR], Data [ACK, CHR ''N'']],
                comms_log = []\<rparr>,
        initialised = True, stop_requested = False,
        threads = [Thread [Command ''BM3''] ''a'' True], microlab_log = [],
        comms_level = DEBUG, stop_in = None\<rparr> =
   Some (Inl IndexError,
     \<lparr>comms = \<lparr>sent = [''aBM3'' @ [CR], ''aF'' @ [CR]], incoming = [],
                comms_log =
                  [(DEBUG, SendingRequest ''aBM3<CR>''), (DEBUG, SentBytes 5),
                   (DEBUG, ReceivedResponse ''<ACK><CR>''),
                   (DEBUG, SendingRequest ''aF<CR>''), (DEBUG, SentBytes 3),
                   (DEBUG, ReceivedResponse ''<ACK>N'')]\<rparr>,
        initialised = True, stop_requested = False,
        threads = [Thread [Command ''BM3''] ''a'' True], microlab_log = [],
        comms_level = ERROR, stop_in = None\<rparr>) \<and>
   cycle_commands [Command ''BM3''] ''a''
     \<lparr>comms = \<lparr>sent = [''aBM3'' @ [CR], ''aF'' @ [CR]], incoming = [],
                comms_log =
                  [(DEBUG, SendingRequest ''aBM3<CR>''), (DEBUG, SentBytes 5),
                   (DEBUG, ReceivedResponse ''<ACK><CR>''),
                   (DEBUG, SendingRequest ''aF<CR>''), (DEBUG, SentBytes 3)]\<rparr>,
        initialised = True, stop_requested = False,
        threads = [Thread [Command ''BM3''] ''a'' True], microlab_log = [],
        comms_level = ERROR, stop_in = None\<rparr> =
     \<lparr>comms = \<lparr>sent = [''aBM3'' @ [CR], ''aF'' @ [CR]], incoming = [],
                comms_log =
                  [(DEBUG, SendingRequest ''aBM3<CR>''), (DEBUG, SentBytes 5),
                   (DEBUG, ReceivedResponse ''<ACK><CR>''),
                   (DEBUG, SendingRequest ''aF<CR>''), (DEBUG, SentBytes 3)]\<rparr>,
        initialised = True, stop_requested = False,
        threads = [Thread [Command ''BM3''] ''a'' True],
        microlab_log = [(ERROR, CycleAlreadyRunning)],
        comms_level = ERROR, stop_in = None\<rparr>"
  by code_simp

section \<open>Validation of syringe sub-commands\<close>

lemma syringe_move_out_of_range:
  assumes "value < MIN_SYRINGE_MOVE lim \<or> MAX_SYRINGE_MOVE lim < value \<or>
     (\<exists>s. speed = Some (Integer s) \<and> (s < MIN_SPEED lim \<or> MAX_SPEED lim < s)) \<or>
     (\<exists>r. return_steps = Some (Integer r) \<and>
          (r < MIN_RETURN_STEPS lim \<or> MAX_RETURN_STEPS lim < r))"
  shows "fst (syringe_move lim kind side value speed return_steps) = Inl ValueError"
  using assms
  by (auto simp: syringe_move_def optional_field_def
      split: option.splits number.splits prod.splits sum.splits if_splits)

text \<open>
  C9. When the step value, an integer speed or an integer number of return steps lies
  outside its range, each of the three constructors raises the validation error; a
  caller that would go on to use the link is cut short there, so the controller and its
  link are as before: no transaction is performed.
\<close>

theorem out_of_range_raises_before_transaction:
  assumes "value < MIN_SYRINGE_MOVE lim \<or> MAX_SYRINGE_MOVE lim < value \<or>
     (\<exists>s. speed = Some (Integer s) \<and> (s < MIN_SPEED lim \<or> MAX_SPEED lim < s)) \<or>
     (\<exists>r. return_steps = Some (Integer r) \<and>
          (r < MIN_RETURN_STEPS lim \<or> MAX_RETURN_STEPS lim < r))"
  shows "fst (SyringePickup lim side value speed return_steps) = Inl ValueError \<and>
         fst (SyringeDispense lim side value speed return_steps) = Inl ValueError \<and>
         fst (SyringeAbsoluteMove lim side value speed return_steps) = Inl ValueError \<and>
         then_run (fst (SyringePickup lim side value speed return_steps)) k m
           = (Inl ValueError, m) \<and>
         then_run (fst (SyringeDispense lim side value speed return_steps)) k m
           = (Inl ValueError, m) \<and>
         then_run (fst (SyringeAbsoluteMove lim side value speed return_steps)) k m
           = (Inl ValueError, m)"
  using syringe_move_out_of_range [OF assms]
  by (simp add: SyringePickup_def SyringeDispense_def SyringeAbsoluteMove_def then_run_def)

theorem out_of_range_raises_before_transaction_witness:
  "((20::int) < MIN_SYRINGE_MOVE \<lparr>MIN_SYRINGE_MOVE = 0, MAX_SYRINGE_MOVE = 100, MIN_SPEED = 1,
        MAX_SPEED = 50, MIN_RETURN_STEPS = 0, MAX_RETURN_STEPS = 10\<rparr> \<or>
    MAX_SYRINGE_MOVE \<lparr>MIN_SYRINGE_MOVE = 0, MAX_SYRINGE_MOVE = 100, MIN_SPEED = 1,
        MAX_SPEED = 50, MIN_RETURN_STEPS = 0, MAX_RETURN_STEPS = 10\<rparr> < 20 \<or>
    (\<exists>s. Some (Integer (- 300)) = Some (Integer s) \<and>
        (s < MIN_SPEED \<lparr>MIN_SYRINGE_MOVE = 0, MAX_SYRINGE_MOVE = 100, MIN_SPEED = 1,
            MAX_SPEED = 50, MIN_RETURN_STEPS = 0, MAX_RETURN_STEPS = 10\<rparr> \<or>
         MAX_SPEED \<lparr>MIN_SYRINGE_MOVE = 0, MAX_SYRINGE_MOVE = 100, MIN_SPEED = 1,
            MAX_SPEED = 50, MIN_RETURN_STEPS = 0, MAX_RETURN_STEPS = 10\<rparr> < s)) \<or>
    (\<exists>r. (None :: number option) = Some (Integer r) \<and>
        (r < MIN_RETURN_STEPS \<lparr>MIN_SYRINGE_MOVE = 0, MAX_SYRINGE_MOVE = 100, MIN_SPEED = 1,
            MAX_SPEED = 50, MIN_RETURN_STEPS = 0, MAX_RETURN_STEPS = 10\<rparr> \<or>
         MAX_RETURN_STEPS \<lparr>MIN_SYRINGE_MOVE = 0, MAX_SYRINGE_MOVE = 100, MIN_SPEED = 1,
            MAX_SPEED = 50, MIN_RETURN_STEPS = 0, MAX_RETURN_STEPS = 10\<rparr> < r))) \<and>
   fst (SyringePickup \<lparr>MIN_SYRINGE_MOVE = 0, MAX_SYRINGE_MOVE = 100, MIN_SPEED = 1,
          MAX_SPEED = 50, MIN_RETURN_STEPS = 0, MAX_RETURN_STEPS = 10\<rparr>
        RIGHT 20 (Some (Integer (- 300))) None) = Inl ValueError \<and>
   then_run (fst (SyringePickup \<lparr>MIN_SYRINGE_MOVE = 0, MAX_SYRINGE_MOVE = 100, MIN_SPEED = 1,
          MAX_SPEED = 50, MIN_RETURN_STEPS = 0, MAX_RETURN_STEPS = 10\<rparr>
        RIGHT 20 (Some (Integer (- 300))) None))
     (\<lambda>sc. send_command (Command ''BM3'') ''a'')
     \<lparr>comms = \<lparr>sent = [], incoming = [Data [ACK, CR]], comms_log = []\<rparr>,
        initialised = True, stop_requested = False, threads = [], microlab_log = [],
        comms_level = DEBUG, stop_in = None\<rparr> =
   (Inl ValueError,
     \<lparr>comms = \<lparr>sent = [], incoming = [Data [ACK, CR]], comms_log = []\<rparr>,
        initialised = True, stop_requested = False, threads = [], microlab_log = [],
        comms_level = DEBUG, stop_in = None\<rparr>)"
proof -
  have h: "(20::int) < MIN_SYRINGE_MOVE \<lparr>MIN_SYRINGE_MOVE = 0, MAX_SYRINGE_MOVE = 100, MIN_SPEED = 1,
        MAX_SPEED = 50, MIN_RETURN_STEPS = 0, MAX_RETURN_STEPS = 10\<rparr> \<or>
    MAX_SYRINGE_MOVE \<lparr>MIN_SYRINGE_MOVE = 0, MAX_SYRINGE_MOVE = 100, MIN_SPEED = 1,
        MAX_SPEED = 50, MIN_RETURN_STEPS = 0, MAX_RETURN_STEPS = 10\<rparr> < 20 \<or>
    (\<exists>s. Some (Integer (- 300)) = Some (Integer s) \<and>
        (s < MIN_SPEED \<lparr>MIN_SYRINGE_MOVE = 0, MAX_SYRINGE_MOVE = 100, MIN_SPEED = 1,
            MAX_SPEED = 50, MIN_RETURN_STEPS = 0, MAX_RETURN_STEPS = 10\<rparr> \<or>
         MAX_SPEED \<lparr>MIN_SYRINGE_MOVE = 0, MAX_SYRINGE_MOVE = 100, MIN_SPEED = 1,
            MAX_SPEED = 50, MIN_RETURN_STEPS = 0, MAX_RETURN_STEPS = 10\<rparr> < s)) \<or>
    (\<exists>r. (None :: number option) = Some (Integer r) \<and>
        (r < MIN_RETURN_STEPS \<lparr>MIN_SYRINGE_MOVE = 0, MAX_SYRINGE_MOVE = 100, MIN_SPEED = 1,
            MAX_SPEED = 50, MIN_RETURN_STEPS = 0, MAX_RETURN_STEPS = 10\<rparr> \<or>
         MAX_RETURN_STEPS \<lparr>MIN_SYRINGE_MOVE = 0, MAX_SYRINGE_MOVE = 100, MIN_SPEED = 1,
            MAX_SPEED = 50, MIN_RETURN_STEPS = 0, MAX_RETURN_STEPS = 10\<rparr> < r))"
    by simp
  from out_of_range_raises_before_transaction [OF h]
  show ?thesis using h by blast
qed

end
